theory Spec2Isabelle
  imports Main "HOL-Library.Char_ord" "HOL-Library.List_Lexorder"
begin

section \<open>Python values\<close>

text \<open>
  A Python \<open>str\<close> is a \<open>string\<close>, one \<open>char\<close> per code point, so the model covers the
  code points below 256. The values \<open>json.load\<close> produces are the datatype \<open>json\<close>
  (numbers with a fraction or an exponent are left out); a Python \<open>dict\<close> is an
  association list in insertion order with distinct keys.
\<close>

datatype json =
    JNull
  | JBool bool
  | JInt int
  | JStr string
  | JArr "json list"
  | JObj "(string \<times> json) list"

type_synonym dict = "(string \<times> json) list"

datatype error = AttributeError | TypeError | KeyError

text \<open>Truth value of a Python object, as \<open>not\<close>, \<open>or\<close> and \<open>if\<close> test it.\<close>

fun truthy :: "json \<Rightarrow> bool" where
  "truthy JNull = False"
| "truthy (JBool b) = b"
| "truthy (JInt n) = (n \<noteq> 0)"
| "truthy (JStr s) = (s \<noteq> [])"
| "truthy (JArr xs) = (xs \<noteq> [])"
| "truthy (JObj kvs) = (kvs \<noteq> [])"

definition py_or :: "json \<Rightarrow> json \<Rightarrow> json" where
  "py_or a b = (if truthy a then a else b)"

text \<open>\<open>d.get(k)\<close>: the value, or \<open>None\<close> for a missing key.\<close>

definition py_get :: "dict \<Rightarrow> string \<Rightarrow> json" where
  "py_get d k = (case map_of d k of None \<Rightarrow> JNull | Some v \<Rightarrow> v)"

text \<open>\<open>d[k] = v\<close>: an existing key keeps its place, a new key goes to the end.\<close>

fun dict_set :: "('k \<times> 'v) list \<Rightarrow> 'k \<Rightarrow> 'v \<Rightarrow> ('k \<times> 'v) list" where
  "dict_set [] k v = [(k, v)]"
| "dict_set ((k', v') # d) k v =
     (if k' = k then (k, v) # d else (k', v') # dict_set d k v)"

text \<open>The dict display \<open>{..., **extra}\<close>: the entries of \<open>extra\<close> are stored in order.\<close>

definition dict_merge :: "dict \<Rightarrow> dict \<Rightarrow> dict" where
  "dict_merge base extra = foldl (\<lambda>d (k, v). dict_set d k v) base extra"

text \<open>
  \<open>str.isspace\<close> on the code points below 256: the characters \<open>str.strip()\<close> removes.
\<close>

definition py_isspace :: "char \<Rightarrow> bool" where
  "py_isspace c = (let n = (of_char c :: nat) in
     (9 \<le> n \<and> n \<le> 13) \<or> (28 \<le> n \<and> n \<le> 32) \<or> n = 133 \<or> n = 160)"

definition strip :: "string \<Rightarrow> string" where
  "strip s = rev (dropWhile py_isspace (rev (dropWhile py_isspace s)))"

text \<open>\<open>x.strip()\<close> on a value: only a \<open>str\<close> has the method.\<close>

definition py_strip :: "json \<Rightarrow> error + string" where
  "py_strip v = (case v of JStr s \<Rightarrow> Inr (strip s) | _ \<Rightarrow> Inl AttributeError)"

text \<open>\<open>str.lower()\<close> on the code points below 256.\<close>

definition py_lower :: "char \<Rightarrow> char" where
  "py_lower c = (let n = (of_char c :: nat) in
     if (65 \<le> n \<and> n \<le> 90) \<or> (192 \<le> n \<and> n \<le> 222 \<and> n \<noteq> 215)
     then char_of (n + 32) else c)"

definition lower :: "string \<Rightarrow> string" where
  "lower s = map py_lower s"

text \<open>
  \<open>str(v)\<close> and the formatting of \<open>v\<close> in an f-string. A \<open>str\<close> is itself; what Python
  prints for any other value is the parameter \<open>str_of\<close>.
\<close>

definition py_str :: "(json \<Rightarrow> string) \<Rightarrow> json \<Rightarrow> string" where
  "py_str str_of v = (case v of JStr s \<Rightarrow> s | _ \<Rightarrow> str_of v)"

text \<open>
  Iterating over a value in a \<open>for\<close>: a list gives its elements, a \<open>str\<close> its characters,
  a dict its keys; nothing else here is iterable.
\<close>

fun py_iter :: "json \<Rightarrow> error + json list" where
  "py_iter (JArr xs) = Inr xs"
| "py_iter (JStr s) = Inr (map (\<lambda>c. JStr [c]) s)"
| "py_iter (JObj kvs) = Inr (map (\<lambda>(k, v). JStr k) kvs)"
| "py_iter v = Inl TypeError"


section \<open>load_data.py: utilities\<close>

definition STOPWORDS :: "string list" where
  "STOPWORDS =
    [''the'', ''a'', ''an'', ''and'', ''or'', ''but'', ''in'', ''on'', ''at'', ''to'', ''for'',
     ''of'', ''with'', ''by'', ''from'', ''up'', ''about'', ''into'', ''through'', ''during'',
     ''is'', ''are'', ''was'', ''were'', ''be'', ''been'', ''being'', ''have'', ''has'', ''had'',
     ''do'', ''does'', ''did'', ''will'', ''would'', ''could'', ''should'', ''may'', ''might'',
     ''can'', ''this'', ''that'', ''these'', ''those'', ''we'', ''our'', ''use'', ''using'',
     ''based'', ''approach'', ''method'', ''paper'', ''propose'', ''proposed'', ''show'']"

definition sentinel_date :: string where
  "sentinel_date = ''0000-00-00''"

text \<open>
  \<open>ymd\<close>: a falsy value gives the sentinel; otherwise the text before the first \<open>T\<close>
  (\<open>s.split('T', 1)[0]\<close>) is cut to ten characters when it has that many.
\<close>

definition ymd :: "(json \<Rightarrow> string) \<Rightarrow> json \<Rightarrow> string" where
  "ymd str_of date_str_iso =
     (if \<not> truthy date_str_iso then sentinel_date
      else
        let s = py_str str_of date_str_iso;
            s = (if CHR ''T'' \<in> set s then takeWhile (\<lambda>c. c \<noteq> CHR ''T'') s else s)
        in if 10 \<le> length s then take 10 s else sentinel_date)"

text \<open>The character class \<open>[a-zA-Z]\<close>.\<close>

definition is_alpha :: "char \<Rightarrow> bool" where
  "is_alpha c = (let n = (of_char c :: nat) in
     (97 \<le> n \<and> n \<le> 122) \<or> (65 \<le> n \<and> n \<le> 90))"

text \<open>
  \<open>re.findall(r"[a-zA-Z]+", s)\<close>: scan from the left; where a letter stands, the longest
  run of letters is one match and the scan goes on behind it; elsewhere it moves on by
  one character.
\<close>

function findall_alpha :: "string \<Rightarrow> string list" where
  "findall_alpha [] = []"
| "findall_alpha (c # cs) =
     (if is_alpha c
      then (c # takeWhile is_alpha cs) # findall_alpha (dropWhile is_alpha cs)
      else findall_alpha cs)"
  by pat_completeness auto
termination
  by (relation "measure length") (auto simp: length_dropWhile_le less_Suc_eq_le)

definition tokenize_words :: "string \<Rightarrow> string list" where
  "tokenize_words text =
     filter (\<lambda>t. t \<notin> set STOPWORDS \<and> 2 < length t) (findall_alpha (lower text))"

text \<open>
  \<open>Counter(tokens)\<close>: one pass from the left, \<open>c[w] = c.get(w, 0) + 1\<close>, in a dict that
  keeps insertion order.
\<close>

definition counter_add :: "(string \<times> nat) list \<Rightarrow> string \<Rightarrow> (string \<times> nat) list" where
  "counter_add c w = dict_set c w ((case map_of c w of None \<Rightarrow> 0 | Some n \<Rightarrow> n) + 1)"

definition Counter :: "string list \<Rightarrow> (string \<times> nat) list" where
  "Counter toks = foldl counter_add [] toks"

text \<open>
  \<open>Counter.most_common(k)\<close> is \<open>heapq.nlargest(k, items, key=count)\<close>, which is
  \<open>sorted(items, key=count, reverse=True)[:k]\<close>: a stable sort by falling count, cut to
  \<open>k\<close> entries (none when \<open>k\<close> is not positive).
\<close>

definition most_common :: "int \<Rightarrow> (string \<times> nat) list \<Rightarrow> (string \<times> nat) list" where
  "most_common k c = take (nat k) (sort_key (\<lambda>(w, n). - int n) c)"

definition top_keywords_from_abstract :: "string \<Rightarrow> int \<Rightarrow> string list" where
  "top_keywords_from_abstract abstract k =
     (let tokens = tokenize_words abstract
      in if tokens = [] then [] else map fst (most_common k (Counter tokens)))"



text \<open>
  A rendering of values that are not strings, for the worked examples below; their
  inputs are strings, so it is never consulted.
\<close>

definition no_str :: "json \<Rightarrow> string" where
  "no_str v = []"


section \<open>Vocabulary of the keyword properties\<close>

text \<open>
  \<open>runs s ts\<close>: \<open>ts\<close> lists, from left to right, the maximal runs of letters of \<open>s\<close>:
  each run is non-empty, made of letters only, and bounded on both sides by a
  non-letter or by an end of \<open>s\<close>.
\<close>

inductive runs :: "string \<Rightarrow> string list \<Rightarrow> bool" where
  no_run: "\<forall>c\<in>set s. \<not> is_alpha c \<Longrightarrow> runs s []"
| one_run: "\<forall>c\<in>set gap. \<not> is_alpha c \<Longrightarrow> t \<noteq> [] \<Longrightarrow> \<forall>c\<in>set t. is_alpha c \<Longrightarrow>
     rest = [] \<or> \<not> is_alpha (hd rest) \<Longrightarrow> runs rest ts \<Longrightarrow> runs (gap @ t @ rest) (t # ts)"

text \<open>Position of the first occurrence of \<open>a\<close> in \<open>xs\<close>.\<close>

fun first_index :: "'a list \<Rightarrow> 'a \<Rightarrow> nat" where
  "first_index [] a = 0"
| "first_index (x # xs) a = (if x = a then 0 else Suc (first_index xs a))"

text \<open>
  \<open>v\<close> ranks before \<open>w\<close>: it is more frequent among the tokens, or as frequent and first
  seen earlier.
\<close>

definition ranks_before :: "string list \<Rightarrow> string \<Rightarrow> string \<Rightarrow> bool" where
  "ranks_before toks v w \<longleftrightarrow>
     count_list toks w < count_list toks v \<or>
     (count_list toks v = count_list toks w \<and> first_index toks v < first_index toks w)"

text \<open>All distinct tokens, most common first: \<open>most_common\<close> before the cut.\<close>

definition ranking :: "string list \<Rightarrow> string list" where
  "ranking toks = map fst (sort_key (\<lambda>(w, n). - int n) (Counter toks))"


section \<open>load_data.py: item builders\<close>

text \<open>\<open>compact\<close>: drop \<open>None\<close>, empty strings and empty lists or dicts.\<close>

definition compact :: "dict \<Rightarrow> dict" where
  "compact d = filter (\<lambda>(k, v). \<not> (v = JNull \<or> v = JStr [] \<or> v = JArr [] \<or> v = JObj [])) d"

text \<open>\<open>pub_date or "0000-00-00"\<close>.\<close>

definition or_sentinel :: "string \<Rightarrow> string" where
  "or_sentinel pub_date = (if pub_date = [] then sentinel_date else pub_date)"

text \<open>
  The builders read \<open>paper['arxiv_id']\<close>, which raises \<open>KeyError\<close> on a paper without it,
  and end with \<open>compact\<close> over the dict display \<open>{keys..., **paper}\<close>.
\<close>

definition make_master_item :: "(json \<Rightarrow> string) \<Rightarrow> dict \<Rightarrow> string \<Rightarrow> error + dict" where
  "make_master_item str_of paper pub_date =
     (case map_of paper ''arxiv_id'' of
        None \<Rightarrow> Inl KeyError
      | Some arxiv_id \<Rightarrow>
          let pk = ''PAPER#'' @ py_str str_of arxiv_id;
              sk = ''MASTER'';
              gsi2pk = ''PAPER#'' @ py_str str_of arxiv_id;
              gsi2sk = or_sentinel pub_date;
              item = dict_merge
                [(''PK'', JStr pk), (''SK'', JStr sk),
                 (''GSI2PK'', JStr gsi2pk), (''GSI2SK'', JStr gsi2sk),
                 (''item_type'', JStr ''MASTER'')] paper
          in Inr (compact item))"

definition make_category_item ::
  "(json \<Rightarrow> string) \<Rightarrow> dict \<Rightarrow> string \<Rightarrow> string \<Rightarrow> error + dict" where
  "make_category_item str_of paper category pub_date =
     (case map_of paper ''arxiv_id'' of
        None \<Rightarrow> Inl KeyError
      | Some arxiv_id \<Rightarrow>
          let pk = ''CATEGORY#'' @ category;
              sk = or_sentinel pub_date @ ''#'' @ py_str str_of arxiv_id;
              item = dict_merge
                [(''PK'', JStr pk), (''SK'', JStr sk),
                 (''item_type'', JStr ''CATEGORY'')] paper
          in Inr (compact item))"

text \<open>An empty author gives \<open>None\<close>, before anything else is looked at.\<close>

definition make_author_item ::
  "(json \<Rightarrow> string) \<Rightarrow> dict \<Rightarrow> string \<Rightarrow> string \<Rightarrow> error + dict option" where
  "make_author_item str_of paper author pub_date =
     (if author = [] then Inr None
      else case map_of paper ''arxiv_id'' of
        None \<Rightarrow> Inl KeyError
      | Some arxiv_id \<Rightarrow>
          let pk = ''AUTHORITEM#'' @ author @ ''#'' @ py_str str_of arxiv_id;
              sk = or_sentinel pub_date @ ''#'' @ py_str str_of arxiv_id;
              gsi1pk = ''AUTHOR#'' @ author;
              gsi1sk = sk;
              item = dict_merge
                [(''PK'', JStr pk), (''SK'', JStr sk),
                 (''GSI1PK'', JStr gsi1pk), (''GSI1SK'', JStr gsi1sk),
                 (''item_type'', JStr ''AUTHOR'')] paper
          in Inr (Some (compact item)))"

text \<open>
  The keyword is read back from the paper, so it is a value: a falsy one gives \<open>None\<close>,
  and \<open>keyword.lower()\<close> needs a \<open>str\<close>.
\<close>

definition make_keyword_item ::
  "(json \<Rightarrow> string) \<Rightarrow> dict \<Rightarrow> json \<Rightarrow> string \<Rightarrow> error + dict option" where
  "make_keyword_item str_of paper keyword pub_date =
     (if \<not> truthy keyword then Inr None
      else case keyword of
        JStr k \<Rightarrow>
          (let kw = lower k in
           case map_of paper ''arxiv_id'' of
             None \<Rightarrow> Inl KeyError
           | Some arxiv_id \<Rightarrow>
               let pk = ''KEYWORDITEM#'' @ kw @ ''#'' @ py_str str_of arxiv_id;
                   sk = or_sentinel pub_date @ ''#'' @ py_str str_of arxiv_id;
                   gsi3pk = ''KEYWORD#'' @ kw;
                   gsi3sk = sk;
                   item = dict_merge
                     [(''PK'', JStr pk), (''SK'', JStr sk),
                      (''GSI3PK'', JStr gsi3pk), (''GSI3SK'', JStr gsi3sk),
                      (''item_type'', JStr ''KEYWORD'')] paper
               in Inr (Some (compact item)))
      | _ \<Rightarrow> Inl AttributeError)"


section \<open>load_data.py: the store and the batch writer\<close>

text \<open>
  Modelled from the spec: the store is not part of the repository; it offers per-item
  put with replace semantics under the composite key (\<open>PK\<close>, \<open>SK\<close>). A table is the map
  from that key to the item stored under it, and every put is accepted.
\<close>

type_synonym table = "json \<times> json \<Rightarrow> dict option"

definition put_item :: "table \<Rightarrow> dict \<Rightarrow> table" where
  "put_item t it = t((py_get it ''PK'', py_get it ''SK'') \<mapsto> it)"

text \<open>
  \<open>batch_write\<close>: the items that reach \<open>writer.put_item\<close> are those that are not \<open>None\<close>
  and whose \<open>PK\<close> and \<open>SK\<close> are both truthy; they are put in order.
\<close>

definition submitted :: "dict option list \<Rightarrow> dict list" where
  "submitted items =
     List.map_filter
       (\<lambda>it. case it of
          None \<Rightarrow> None
        | Some d \<Rightarrow>
            if \<not> truthy (py_get d ''PK'') \<or> \<not> truthy (py_get d ''SK'') then None
            else Some d)
       items"

definition batch_write :: "table \<Rightarrow> dict option list \<Rightarrow> table" where
  "batch_write t items = foldl put_item t (submitted items)"


section \<open>load_data.py: transform_and_write\<close>

definition bind_err :: "error + 'a \<Rightarrow> ('a \<Rightarrow> error + 'b) \<Rightarrow> error + 'b" where
  "bind_err r f = (case r of Inl e \<Rightarrow> Inl e | Inr x \<Rightarrow> f x)"

text \<open>
  The loop \<open>for x in xs: it = make_item(x); if it: items.append(it)\<close>: an item is appended
  when it is neither \<open>None\<close> nor an empty dict; an exception ends the loop.
\<close>

fun collect :: "('a \<Rightarrow> error + dict option) \<Rightarrow> 'a list \<Rightarrow> error + dict list" where
  "collect mk [] = Inr []"
| "collect mk (x # xs) =
     (case mk x of
        Inl e \<Rightarrow> Inl e
      | Inr it \<Rightarrow>
          (case collect mk xs of
             Inl e \<Rightarrow> Inl e
           | Inr its \<Rightarrow>
               Inr (case it of
                      None \<Rightarrow> its
                    | Some d \<Rightarrow> if d = [] then its else d # its)))"

text \<open>\<open>[a for a in xs if isinstance(a, str) and a.strip()]\<close>.\<close>

definition str_items :: "json list \<Rightarrow> string list" where
  "str_items xs =
     List.map_filter
       (\<lambda>v. case v of JStr s \<Rightarrow> if strip s \<noteq> [] then Some s else None | _ \<Rightarrow> None) xs"

text \<open>
  The first half of the loop body of \<open>transform_and_write\<close> (the lines up to
  \<open>paper = compact(paper_doc)\<close>): the fields of one raw paper \<open>p\<close> are cleaned and the
  paper document is built. \<open>Inr None\<close> is a \<open>continue\<close> (paper skipped), \<open>Inl\<close> an
  exception.
\<close>

record normalized =
  paper :: dict
  categories :: "string list"
  authors :: "string list"
  pub_date :: string

definition build_paper :: "(json \<Rightarrow> string) \<Rightarrow> json \<Rightarrow> error + normalized option" where
  "build_paper str_of p =
     (case p of
        JObj d \<Rightarrow>
          bind_err (py_strip (py_or (py_or (py_get d ''arxiv_id'') (py_get d ''id'')) (JStr ''''))) (\<lambda>arxiv_id.
          if arxiv_id = [] then Inr None
          else
          bind_err (py_strip (py_or (py_get d ''title'') (JStr ''''))) (\<lambda>title.
          bind_err (py_iter (py_or (py_get d ''authors'') (JArr []))) (\<lambda>raw_authors.
          bind_err (py_strip (py_or (py_get d ''abstract'') (JStr ''''))) (\<lambda>abstract.
          bind_err (py_iter (py_or (py_get d ''categories'') (JArr []))) (\<lambda>raw_categories.
          let authors = str_items raw_authors;
              categories = str_items raw_categories;
              published_raw = py_or (py_or (py_get d ''published'') (py_get d ''date'')) (JStr '''');
              pub_date = ymd str_of published_raw
          in
          if categories = [] then Inr None
          else
          let paper_doc =
                [(''arxiv_id'', JStr arxiv_id),
                 (''title'', JStr title),
                 (''authors'', JArr (map JStr authors)),
                 (''abstract'', JStr abstract),
                 (''categories'', JArr (map JStr categories)),
                 (''keywords'', JArr (map JStr (top_keywords_from_abstract abstract 10))),
                 (''published'', py_or (py_get d ''published'') (JStr (pub_date @ ''T00:00:00Z'')))]
          in Inr (Some \<lparr>paper = compact paper_doc, categories = categories,
                        authors = authors, pub_date = pub_date\<rparr>))))))
      | _ \<Rightarrow> Inl AttributeError)"

text \<open>
  The second half of the loop body, up to the batch write: what is appended to
  \<open>items\<close>, kept by the stage that appended it; each append of a stage goes with one
  increment of that stage's counter. The keywords are read back from the paper
  (\<open>paper.get('keywords', [])\<close>).
\<close>

record generated =
  master_items :: "dict list"
  category_items :: "dict list"
  author_items :: "dict list"
  keyword_items :: "dict list"

definition items_of :: "generated \<Rightarrow> dict list" where
  "items_of g = master_items g @ category_items g @ author_items g @ keyword_items g"

definition generate_items :: "(json \<Rightarrow> string) \<Rightarrow> normalized \<Rightarrow> error + generated" where
  "generate_items str_of n =
     bind_err (make_master_item str_of (paper n) (pub_date n)) (\<lambda>master.
     bind_err (collect (\<lambda>c. map_sum id Some (make_category_item str_of (paper n) c (pub_date n)))
                 (categories n)) (\<lambda>cats.
     bind_err (collect (\<lambda>a. make_author_item str_of (paper n) a (pub_date n)) (authors n)) (\<lambda>auths.
     bind_err (py_iter (case map_of (paper n) ''keywords'' of None \<Rightarrow> JArr [] | Some v \<Rightarrow> v)) (\<lambda>kws.
     bind_err (collect (\<lambda>kw. make_keyword_item str_of (paper n) kw (pub_date n)) kws) (\<lambda>kwitems.
     Inr \<lparr>master_items = [master], category_items = cats,
          author_items = auths, keyword_items = kwitems\<rparr>)))))"

text \<open>The loop body up to the batch write.\<close>

definition transform_paper :: "(json \<Rightarrow> string) \<Rightarrow> json \<Rightarrow> error + generated option" where
  "transform_paper str_of p =
     bind_err (build_paper str_of p) (\<lambda>r.
       case r of
         None \<Rightarrow> Inr None
       | Some n \<Rightarrow> bind_err (generate_items str_of n) (\<lambda>g. Inr (Some g)))"

record stats =
  total_papers :: nat
  total_items :: nat
  count_master :: nat
  count_category :: nat
  count_author :: nat
  count_keyword :: nat

definition count_paper :: "stats \<Rightarrow> generated \<Rightarrow> stats" where
  "count_paper st g =
     \<lparr>total_papers = total_papers st + 1,
      total_items = total_items st + length (items_of g),
      count_master = count_master st + length (master_items g),
      count_category = count_category st + length (category_items g),
      count_author = count_author st + length (author_items g),
      count_keyword = count_keyword st + length (keyword_items g)\<rparr>"

text \<open>
  The loop over the papers, from a table and the counters so far. The result is the
  table as the run leaves it, with the counters, or with the exception that ended it.
\<close>

fun transform_loop ::
  "(json \<Rightarrow> string) \<Rightarrow> table \<Rightarrow> stats \<Rightarrow> json list \<Rightarrow> table \<times> (error + stats)" where
  "transform_loop str_of t st [] = (t, Inr st)"
| "transform_loop str_of t st (p # ps) =
     (case transform_paper str_of p of
        Inl e \<Rightarrow> (t, Inl e)
      | Inr None \<Rightarrow> transform_loop str_of t st ps
      | Inr (Some g) \<Rightarrow>
          transform_loop str_of (batch_write t (map Some (items_of g))) (count_paper st g) ps)"

definition transform_and_write ::
  "(json \<Rightarrow> string) \<Rightarrow> table \<Rightarrow> json list \<Rightarrow> table \<times> (error + stats)" where
  "transform_and_write str_of t papers =
     transform_loop str_of t
       \<lparr>total_papers = 0, total_items = 0, count_master = 0, count_category = 0,
        count_author = 0, count_keyword = 0\<rparr> papers"

text \<open>Number of items of one kind in a sequence, by their \<open>item_type\<close>.\<close>

definition kind_count :: "string \<Rightarrow> dict list \<Rightarrow> nat" where
  "kind_count kind items = length (filter (\<lambda>it. map_of it ''item_type'' = Some (JStr kind)) items)"

text \<open>The attributes that take part in a key of the table or of one of its indexes.\<close>

definition key_attributes :: "string list" where
  "key_attributes =
     [''PK'', ''SK'', ''GSI1PK'', ''GSI1SK'', ''GSI2PK'', ''GSI2SK'', ''GSI3PK'', ''GSI3SK'']"


section \<open>The input format\<close>

text \<open>
  A raw paper of the input file: an object whose \<open>id\<close>, \<open>arxiv_id\<close>, \<open>title\<close>, \<open>abstract\<close>,
  \<open>published\<close> and \<open>date\<close> are strings where present, and whose \<open>authors\<close> and
  \<open>categories\<close> are arrays where present.
\<close>

definition opt_str :: "json \<Rightarrow> bool" where
  "opt_str v = (case v of JNull \<Rightarrow> True | JStr s \<Rightarrow> True | _ \<Rightarrow> False)"

definition opt_arr :: "json \<Rightarrow> bool" where
  "opt_arr v = (case v of JNull \<Rightarrow> True | JArr xs \<Rightarrow> True | _ \<Rightarrow> False)"

definition well_formed :: "dict \<Rightarrow> bool" where
  "well_formed d \<longleftrightarrow>
     list_all (\<lambda>k. opt_str (py_get d k))
       [''arxiv_id'', ''id'', ''title'', ''abstract'', ''published'', ''date''] \<and>
     list_all (\<lambda>k. opt_arr (py_get d k)) [''authors'', ''categories'']"

text \<open>The text of a string field, empty when the field is absent.\<close>

definition field_text :: "json \<Rightarrow> string" where
  "field_text v = (case v of JStr s \<Rightarrow> s | _ \<Rightarrow> [])"

text \<open>The elements of an array field, none when the field is absent.\<close>

definition field_list :: "json \<Rightarrow> json list" where
  "field_list v = (case v of JArr xs \<Rightarrow> xs | _ \<Rightarrow> [])"

text \<open>The identifier of a raw paper, trimmed: \<open>arxiv_id\<close> where it is set, else \<open>id\<close>.\<close>

definition raw_id :: "dict \<Rightarrow> string" where
  "raw_id d = strip (field_text (py_or (py_get d ''arxiv_id'') (py_get d ''id'')))"

text \<open>The categories and authors that survive the filter.\<close>

definition surviving :: "dict \<Rightarrow> string \<Rightarrow> string list" where
  "surviving d k = str_items (field_list (py_get d k))"


section \<open>The index entries of the data model\<close>

text \<open>
  The key attributes of the four kinds of entry, as the data model lists them, for a
  paper with identifier \<open>aid\<close> published on \<open>pd\<close>; an entry is these attributes followed
  by the attributes of the paper.
\<close>

definition master_keys :: "string \<Rightarrow> string \<Rightarrow> dict" where
  "master_keys aid pd =
     [(''PK'', JStr (''PAPER#'' @ aid)), (''SK'', JStr ''MASTER''),
      (''GSI2PK'', JStr (''PAPER#'' @ aid)), (''GSI2SK'', JStr pd),
      (''item_type'', JStr ''MASTER'')]"

definition category_keys :: "string \<Rightarrow> string \<Rightarrow> string \<Rightarrow> dict" where
  "category_keys c aid pd =
     [(''PK'', JStr (''CATEGORY#'' @ c)), (''SK'', JStr (pd @ ''#'' @ aid)),
      (''item_type'', JStr ''CATEGORY'')]"

definition author_keys :: "string \<Rightarrow> string \<Rightarrow> string \<Rightarrow> dict" where
  "author_keys a aid pd =
     [(''PK'', JStr (''AUTHORITEM#'' @ a @ ''#'' @ aid)), (''SK'', JStr (pd @ ''#'' @ aid)),
      (''GSI1PK'', JStr (''AUTHOR#'' @ a)), (''GSI1SK'', JStr (pd @ ''#'' @ aid)),
      (''item_type'', JStr ''AUTHOR'')]"

definition keyword_keys :: "string \<Rightarrow> string \<Rightarrow> string \<Rightarrow> dict" where
  "keyword_keys k aid pd =
     [(''PK'', JStr (''KEYWORDITEM#'' @ k @ ''#'' @ aid)), (''SK'', JStr (pd @ ''#'' @ aid)),
      (''GSI3PK'', JStr (''KEYWORD#'' @ k)), (''GSI3SK'', JStr (pd @ ''#'' @ aid)),
      (''item_type'', JStr ''KEYWORD'')]"

text \<open>The attribute names a paper document can carry.\<close>

definition paper_fields :: "string list" where
  "paper_fields =
     [''arxiv_id'', ''title'', ''authors'', ''abstract'', ''categories'', ''keywords'',
      ''published'']"

text \<open>
  What the builders rely on in a paper document: it carries the identifier, its
  attribute names are distinct and among \<open>paper_fields\<close>, and \<open>compact\<close> has been applied.
\<close>

definition paper_doc_ok :: "dict \<Rightarrow> string \<Rightarrow> bool" where
  "paper_doc_ok P aid \<longleftrightarrow>
     map_of P ''arxiv_id'' = Some (JStr aid) \<and> distinct (map fst P) \<and>
     set (map fst P) \<subseteq> set paper_fields \<and> compact P = P"


section \<open>Worked examples\<close>

text \<open>A raw paper of the input format; its second author is blank.\<close>

definition example_paper :: dict where
  "example_paper =
     [(''id'', JStr ''a1''), (''title'', JStr ''A title''),
      (''authors'', JArr [JStr ''A. Smith'', JStr '' '']),
      (''abstract'', JStr ''deep learning models''),
      (''categories'', JArr [JStr ''cs.LG'']),
      (''published'', JStr ''2023-01-15T00:00:00Z'')]"

text \<open>A raw paper with no identifier, and one whose only category is blank.\<close>

definition paper_without_id :: dict where
  "paper_without_id = [(''title'', JStr ''No id''), (''categories'', JArr [JStr ''cs.LG''])]"

definition paper_without_category :: dict where
  "paper_without_category = [(''arxiv_id'', JStr ''b2''), (''categories'', JArr [JStr '' ''])]"

text \<open>The empty table.\<close>

definition empty_table :: table where
  "empty_table = (\<lambda>k. None)"

text \<open>Whether a pass of the loop body produced items.\<close>

definition passes :: "error + generated option \<Rightarrow> bool" where
  "passes r = (case r of Inr (Some g) \<Rightarrow> True | _ \<Rightarrow> False)"


section \<open>query_papers.py: the five queries\<close>

text \<open>
  The arguments of \<open>Table.query\<close>: a key condition built from \<open>Key(a).eq(v)\<close>,
  \<open>Key(a).between(lo, hi)\<close> and \<open>&\<close>, the index, the scan direction (forward unless
  stated) and the limit.
\<close>

datatype key_cond =
    KeyEq string string
  | KeyBetween string string string
  | KeyAnd key_cond key_cond

record query =
  IndexName :: "string option"
  KeyConditionExpression :: key_cond
  ScanIndexForward :: bool
  Limit :: "int option"

text \<open>
  The store, as the code sees it: a table name and a query give the \<open>Items\<close> of the
  response, or an exception with its message.
\<close>

type_synonym store = "string \<Rightarrow> query \<Rightarrow> string + dict list"

text \<open>
  Modelled from the spec: the store is not part of the repository; it answers equality
  and range conditions over string keys, and compares strings lexically (code point by
  code point, a proper prefix first). \<open>cond_holds c it\<close>: the item \<open>it\<close> satisfies \<open>c\<close>.
\<close>

fun cond_holds :: "key_cond \<Rightarrow> dict \<Rightarrow> bool" where
  "cond_holds (KeyEq a v) it = (map_of it a = Some (JStr v))"
| "cond_holds (KeyBetween a lo hi) it =
     (case map_of it a of Some (JStr s) \<Rightarrow> lo \<le> s \<and> s \<le> hi | _ \<Rightarrow> False)"
| "cond_holds (KeyAnd c1 c2) it = (cond_holds c1 it \<and> cond_holds c2 it)"

definition DEFAULT_TABLE :: string where
  "DEFAULT_TABLE = ''arxiv-papers''"

text \<open>
  Each function of the module makes one call \<open>t.query(...)\<close> and returns the items
  (\<open>resp.get('Items', [])\<close>); the arguments of the call are named here, function by
  function. \<open>limit\<close> is an \<open>int\<close> already where the functions are called.
\<close>

definition recent_query :: "string \<Rightarrow> int \<Rightarrow> query" where
  "recent_query category limit =
     \<lparr>IndexName = None,
      KeyConditionExpression = KeyEq ''PK'' (''CATEGORY#'' @ category),
      ScanIndexForward = False,
      Limit = Some limit\<rparr>"

definition query_recent_in_category :: "store \<Rightarrow> string \<Rightarrow> string \<Rightarrow> int \<Rightarrow> string + dict list" where
  "query_recent_in_category store table_name category limit =
     store table_name (recent_query category limit)"

definition author_query :: "string \<Rightarrow> query" where
  "author_query author_name =
     \<lparr>IndexName = Some ''AuthorIndex'',
      KeyConditionExpression = KeyEq ''GSI1PK'' (''AUTHOR#'' @ author_name),
      ScanIndexForward = True,
      Limit = None\<rparr>"

definition query_papers_by_author :: "store \<Rightarrow> string \<Rightarrow> string \<Rightarrow> string + dict list" where
  "query_papers_by_author store table_name author_name =
     store table_name (author_query author_name)"

definition id_query :: "string \<Rightarrow> query" where
  "id_query arxiv_id =
     \<lparr>IndexName = Some ''PaperIdIndex'',
      KeyConditionExpression = KeyEq ''GSI2PK'' (''PAPER#'' @ arxiv_id),
      ScanIndexForward = True,
      Limit = None\<rparr>"

text \<open>\<open>items[0] if items else None\<close>.\<close>

definition get_paper_by_id :: "store \<Rightarrow> string \<Rightarrow> string \<Rightarrow> string + dict option" where
  "get_paper_by_id store table_name arxiv_id =
     (case store table_name (id_query arxiv_id) of
        Inl e \<Rightarrow> Inl e
      | Inr items \<Rightarrow> Inr (case items of [] \<Rightarrow> None | it # rest \<Rightarrow> Some it))"

definition date_range_query :: "string \<Rightarrow> string \<Rightarrow> string \<Rightarrow> query" where
  "date_range_query category start_date end_date =
     \<lparr>IndexName = None,
      KeyConditionExpression =
        KeyAnd (KeyEq ''PK'' (''CATEGORY#'' @ category))
               (KeyBetween ''SK'' (start_date @ ''#'') (end_date @ ''#zzzzzzz'')),
      ScanIndexForward = True,
      Limit = None\<rparr>"

definition query_papers_in_date_range ::
  "store \<Rightarrow> string \<Rightarrow> string \<Rightarrow> string \<Rightarrow> string \<Rightarrow> string + dict list" where
  "query_papers_in_date_range store table_name category start_date end_date =
     store table_name (date_range_query category start_date end_date)"

definition keyword_query :: "string \<Rightarrow> int \<Rightarrow> query" where
  "keyword_query keyword limit =
     \<lparr>IndexName = Some ''KeywordIndex'',
      KeyConditionExpression = KeyEq ''GSI3PK'' (''KEYWORD#'' @ lower keyword),
      ScanIndexForward = False,
      Limit = Some limit\<rparr>"

definition query_papers_by_keyword :: "store \<Rightarrow> string \<Rightarrow> string \<Rightarrow> int \<Rightarrow> string + dict list" where
  "query_papers_by_keyword store table_name keyword limit =
     store table_name (keyword_query keyword limit)"


section \<open>Parsing an integer\<close>

text \<open>
  \<open>int(s)\<close> on a \<open>str\<close>, base ten: surrounding whitespace is dropped, then come an
  optional sign and decimal digits, where single underscores may stand between digits.
  \<open>None\<close> is \<open>ValueError\<close>.

  The whitespace \<open>int\<close> drops is not that of \<open>str.strip()\<close>: below 127 it is the C
  class (tab, line feed, vertical tab, form feed, carriage return, space), so the
  separators U+001C to U+001F stay and make the text invalid; above, the Unicode
  whitespace (U+0085, U+00A0 among the code points below 256) is turned into a space
  first and dropped with it.

  A text with more decimal digits than \<open>sys.int_max_str_digits\<close> (4300 unless the
  interpreter is told otherwise) is refused as well; leading zeros count, underscores
  do not.
\<close>

definition int_isspace :: "char \<Rightarrow> bool" where
  "int_isspace c = (let n = (of_char c :: nat) in
     (9 \<le> n \<and> n \<le> 13) \<or> n = 32 \<or> n = 133 \<or> n = 160)"

definition int_strip :: "string \<Rightarrow> string" where
  "int_strip s = rev (dropWhile int_isspace (rev (dropWhile int_isspace s)))"

definition int_max_str_digits :: nat where
  "int_max_str_digits = 4300"

definition is_digit :: "char \<Rightarrow> bool" where
  "is_digit c = (let n = (of_char c :: nat) in 48 \<le> n \<and> n \<le> 57)"

definition digit_value :: "char \<Rightarrow> int" where
  "digit_value c = int (of_char c) - 48"

fun int_digits :: "int \<Rightarrow> string \<Rightarrow> int option" where
  "int_digits acc [] = Some acc"
| "int_digits acc [c] = (if is_digit c then Some (10 * acc + digit_value c) else None)"
| "int_digits acc (c # d # cs) =
     (if is_digit c then int_digits (10 * acc + digit_value c) (d # cs)
      else if c = CHR ''_'' \<and> is_digit d then int_digits acc (d # cs)
      else None)"

definition unsigned_int :: "string \<Rightarrow> int option" where
  "unsigned_int s =
     (case s of
        [] \<Rightarrow> None
      | c # cs \<Rightarrow>
          if \<not> is_digit c then None
          else if int_max_str_digits < length (filter is_digit s) then None
          else int_digits 0 s)"

definition py_int :: "string \<Rightarrow> int option" where
  "py_int s =
     (case int_strip s of
        [] \<Rightarrow> None
      | c # cs \<Rightarrow>
          if c = CHR ''-'' then map_option uminus (unsigned_int cs)
          else if c = CHR ''+'' then unsigned_int cs
          else unsigned_int (c # cs))"


section \<open>api_server.py: the request handler\<close>

text \<open>
  A request is the path of the URL (still percent-encoded) and the query string as
  \<open>parse_qs\<close> returns it: each name with its values, of which there is at least one.
  \<open>unquote\<close> is \<open>urllib.parse.unquote\<close>, a parameter of the handler. The handler gives
  the calls made to the store, in order, and the response: status and JSON body.
\<close>

type_synonym params = "(string \<times> string \<times> string list) list"

type_synonym response = "nat \<times> json"

text \<open>\<open>q.get(name, [default])[0]\<close>, \<open>None\<close> standing for the default.\<close>

definition first_param :: "params \<Rightarrow> string \<Rightarrow> string option" where
  "first_param q name = map_option fst (map_of q name)"

definition startswith :: "string \<Rightarrow> string \<Rightarrow> bool" where
  "startswith s p = (take (length p) s = p)"

definition error_body :: "string \<Rightarrow> json" where
  "error_body msg = JObj [(''error'', JStr msg)]"

text \<open>\<open>int(q.get("limit", [20])[0])\<close>; \<open>None\<close> is \<open>ValueError\<close>.\<close>

definition limit_param :: "params \<Rightarrow> int option" where
  "limit_param q = (case first_param q ''limit'' of None \<Rightarrow> Some 20 | Some s \<Rightarrow> py_int s)"

text \<open>
  One call \<open>_table(table).query(...).get("Items", [])\<close> followed by the response built
  from the items; an exception of the store is caught by the handler and answered
  with status 500. The items are taken to be serialisable by \<open>json.dumps\<close>.
\<close>

definition ask ::
  "store \<Rightarrow> string \<Rightarrow> query \<Rightarrow> (dict list \<Rightarrow> response) \<Rightarrow> (string \<times> query) list \<times> response" where
  "ask store table qu respond =
     ([(table, qu)],
      case store table qu of
        Inl msg \<Rightarrow> (500, error_body msg)
      | Inr items \<Rightarrow> respond items)"

definition do_GET ::
  "(string \<Rightarrow> string) \<Rightarrow> store \<Rightarrow> string \<Rightarrow> params \<Rightarrow> (string \<times> query) list \<times> response" where
  "do_GET unquote store path q =
     (let table = (case first_param q ''table'' of None \<Rightarrow> DEFAULT_TABLE | Some t \<Rightarrow> t) in
      if path = ''/health'' then ([], (200, JObj [(''status'', JStr ''ok'')]))
      else if path = ''/papers/recent'' then
        (case first_param q ''category'' of
           None \<Rightarrow> ([], (400, error_body ''category is required''))
         | Some category \<Rightarrow>
             if category = [] then ([], (400, error_body ''category is required''))
             else
               (case limit_param q of
                  None \<Rightarrow> ([], (400, error_body ''limit must be integer''))
                | Some limit \<Rightarrow>
                    ask store table
                      \<lparr>IndexName = None,
                       KeyConditionExpression = KeyEq ''PK'' (''CATEGORY#'' @ category),
                       ScanIndexForward = False,
                       Limit = Some limit\<rparr>
                      (\<lambda>items. (200, JObj [(''category'', JStr category),
                                            (''papers'', JArr (map JObj items)),
                                            (''count'', JInt (int (length items)))]))))
      else if startswith path ''/papers/author/'' then
        (let author = unquote (drop (length ''/papers/author/'') path) in
         if author = [] then ([], (400, error_body ''author is required''))
         else
           ask store table
             \<lparr>IndexName = Some ''AuthorIndex'',
              KeyConditionExpression = KeyEq ''GSI1PK'' (''AUTHOR#'' @ author),
              ScanIndexForward = True,
              Limit = None\<rparr>
             (\<lambda>items. (200, JObj [(''author'', JStr author),
                                   (''papers'', JArr (map JObj items)),
                                   (''count'', JInt (int (length items)))])))
      else if startswith path ''/papers/keyword/'' then
        (let kw = unquote (drop (length ''/papers/keyword/'') path) in
         if kw = [] then ([], (400, error_body ''keyword is required''))
         else
           (case limit_param q of
              None \<Rightarrow> ([], (400, error_body ''limit must be integer''))
            | Some limit \<Rightarrow>
                ask store table
                  \<lparr>IndexName = Some ''KeywordIndex'',
                   KeyConditionExpression = KeyEq ''GSI3PK'' (''KEYWORD#'' @ lower kw),
                   ScanIndexForward = False,
                   Limit = Some limit\<rparr>
                  (\<lambda>items. (200, JObj [(''keyword'', JStr kw),
                                        (''papers'', JArr (map JObj items)),
                                        (''count'', JInt (int (length items)))]))))
      else if path = ''/papers/search'' then
        (case (first_param q ''category'', first_param q ''start'', first_param q ''end'') of
           (Some category, Some start, Some end') \<Rightarrow>
             if category = [] \<or> start = [] \<or> end' = []
             then ([], (400, error_body ''category, start, end are required''))
             else
               ask store table
                 \<lparr>IndexName = None,
                  KeyConditionExpression =
                    KeyAnd (KeyEq ''PK'' (''CATEGORY#'' @ category))
                           (KeyBetween ''SK'' (start @ ''#'') (end' @ ''#zzzzzzz'')),
                  ScanIndexForward = True,
                  Limit = None\<rparr>
                 (\<lambda>items. (200, JObj [(''category'', JStr category),
                                       (''start'', JStr start),
                                       (''end'', JStr end'),
                                       (''papers'', JArr (map JObj items)),
                                       (''count'', JInt (int (length items)))]))
         | _ \<Rightarrow> ([], (400, error_body ''category, start, end are required'')))
      else if startswith path ''/papers/'' \<and> count_list path CHR ''/'' = 2 then
        (let arxiv_id = unquote (drop (length ''/papers/'') path) in
         if arxiv_id = [] then ([], (400, error_body ''arxiv_id is required''))
         else
           ask store table
             \<lparr>IndexName = Some ''PaperIdIndex'',
              KeyConditionExpression = KeyEq ''GSI2PK'' (''PAPER#'' @ arxiv_id),
              ScanIndexForward = True,
              Limit = None\<rparr>
             (\<lambda>items. case items of
                         [] \<Rightarrow> (404, error_body ''not found'')
                       | it # rest \<Rightarrow> (200, JObj it)))
      else ([], (404, error_body ''Not Found'')))"

text \<open>
  \<open>urllib.parse.unquote\<close> on a text whose escapes all stand for ASCII characters: an
  escape \<open>%XX\<close> with two hexadecimal digits becomes the character with that code, and
  everything else stays. (An escape of 80 or above starts a UTF-8 sequence; such
  escapes are left as they are here, and the examples do not use them.)
\<close>

definition hex_value :: "char \<Rightarrow> nat option" where
  "hex_value c = (let n = (of_char c :: nat) in
     if 48 \<le> n \<and> n \<le> 57 then Some (n - 48)
     else if 65 \<le> n \<and> n \<le> 70 then Some (n - 55)
     else if 97 \<le> n \<and> n \<le> 102 then Some (n - 87)
     else None)"

fun unquote_ascii :: "string \<Rightarrow> string" where
  "unquote_ascii (c # h # l # cs) =
     (if c = CHR ''%'' then
        (case (hex_value h, hex_value l) of
           (Some a, Some b) \<Rightarrow>
             if 16 * a + b < 128 then char_of (16 * a + b) # unquote_ascii cs
             else c # unquote_ascii (h # l # cs)
         | _ \<Rightarrow> c # unquote_ascii (h # l # cs))
      else c # unquote_ascii (h # l # cs))"
| "unquote_ascii cs = cs"


section \<open>query_papers.py: the command line\<close>

text \<open>
  \<open>get_flag(name, default)\<close>: the argument behind the first occurrence of \<open>name\<close>, when
  there is one; \<open>None\<close> stands for the default.
\<close>

fun get_flag :: "string list \<Rightarrow> string \<Rightarrow> string option" where
  "get_flag (a # b # rest) name = (if a = name then Some b else get_flag (b # rest) name)"
| "get_flag args name = None"

text \<open>
  What \<open>main\<close> does: it leaves with status 2 when no command is given, and prints one
  JSON payload otherwise. \<open>elapsed\<close> is the measured \<open>execution_time_ms\<close>, and \<open>repr\<close> is
  Python's \<open>repr\<close> of a string, which the message of \<open>int\<close>'s \<open>ValueError\<close> quotes.
\<close>

datatype outcome = Exit int | Print json

definition error_payload :: "int \<Rightarrow> string \<Rightarrow> outcome" where
  "error_payload elapsed msg =
     Print (JObj [(''error'', JStr msg), (''execution_time_ms'', JInt elapsed)])"

definition result_payload :: "int \<Rightarrow> dict \<Rightarrow> outcome" where
  "result_payload elapsed payload =
     Print (JObj (dict_set payload ''execution_time_ms'' (JInt elapsed)))"

text \<open>\<open>int(get_flag('--limit', 20))\<close>: the limit, or the message of the \<open>ValueError\<close>.\<close>

definition limit_flag :: "(string \<Rightarrow> string) \<Rightarrow> string list \<Rightarrow> string + int" where
  "limit_flag repr args =
     (case get_flag args ''--limit'' of
        None \<Rightarrow> Inr 20
      | Some s \<Rightarrow>
          (case py_int s of
             None \<Rightarrow> Inl (''invalid literal for int() with base 10: '' @ repr s)
           | Some n \<Rightarrow> Inr n))"

text \<open>\<open>get_flag('--table', table) or table\<close>.\<close>

definition table_flag :: "string list \<Rightarrow> string" where
  "table_flag args =
     (case get_flag args ''--table'' of
        None \<Rightarrow> DEFAULT_TABLE
      | Some t \<Rightarrow> if t = [] then DEFAULT_TABLE else t)"

text \<open>One call to the store from \<open>main\<close>: an exception becomes the error payload.\<close>

definition cli_ask ::
  "store \<Rightarrow> int \<Rightarrow> string \<Rightarrow> query \<Rightarrow> (dict list \<Rightarrow> dict) \<Rightarrow> (string \<times> query) list \<times> outcome" where
  "cli_ask store elapsed table qu payload =
     ([(table, qu)],
      case store table qu of
        Inl msg \<Rightarrow> error_payload elapsed msg
      | Inr items \<Rightarrow> result_payload elapsed (payload items))"

definition brief :: "dict \<Rightarrow> json" where
  "brief it =
     JObj [(''arxiv_id'', py_get it ''arxiv_id''),
           (''title'', py_get it ''title''),
           (''authors'', (case map_of it ''authors'' of None \<Rightarrow> JArr [] | Some v \<Rightarrow> v)),
           (''published'', py_get it ''published''),
           (''categories'', (case map_of it ''categories'' of None \<Rightarrow> JArr [] | Some v \<Rightarrow> v))]"

definition main ::
  "(string \<Rightarrow> string) \<Rightarrow> store \<Rightarrow> int \<Rightarrow> string list \<Rightarrow> (string \<times> query) list \<times> outcome" where
  "main repr store elapsed argv =
     (case argv of
        [] \<Rightarrow> ([], Exit 2)
      | [prog] \<Rightarrow> ([], Exit 2)
      | prog # cmd # args \<Rightarrow>
          if cmd = ''recent'' then
            (case args of
               [] \<Rightarrow> ([], error_payload elapsed ''recent <category> [--limit N] [--table T]'')
             | category # rest \<Rightarrow>
                 (case limit_flag repr args of
                    Inl msg \<Rightarrow> ([], error_payload elapsed msg)
                  | Inr limit \<Rightarrow>
                      cli_ask store elapsed (table_flag args) (recent_query category limit)
                        (\<lambda>items.
                           [(''query_type'', JStr ''recent_in_category''),
                            (''parameters'', JObj [(''category'', JStr category), (''limit'', JInt limit)]),
                            (''results'', JArr (map brief items)),
                            (''count'', JInt (int (length items)))])))
          else if cmd = ''author'' then
            (case args of
               [] \<Rightarrow> ([], error_payload elapsed ''author <author_name> [--table T]'')
             | author # rest \<Rightarrow>
                 cli_ask store elapsed (table_flag args) (author_query author)
                   (\<lambda>items.
                      [(''query_type'', JStr ''papers_by_author''),
                       (''parameters'', JObj [(''author'', JStr author)]),
                       (''results'', JArr (map JObj items)),
                       (''count'', JInt (int (length items)))]))
          else if cmd = ''get'' then
            (case args of
               [] \<Rightarrow> ([], error_payload elapsed ''get <arxiv_id> [--table T]'')
             | arxiv_id # rest \<Rightarrow>
                 cli_ask store elapsed (table_flag args) (id_query arxiv_id)
                   (\<lambda>items.
                      [(''query_type'', JStr ''get_by_id''),
                       (''parameters'', JObj [(''arxiv_id'', JStr arxiv_id)]),
                       (''result'', (case items of [] \<Rightarrow> JNull | it # others \<Rightarrow> JObj it)),
                       (''found'', JBool (case items of [] \<Rightarrow> False | it # others \<Rightarrow> it \<noteq> []))]))
          else if cmd = ''daterange'' then
            (case args of
               category # start_date # end_date # rest \<Rightarrow>
                 cli_ask store elapsed (table_flag args)
                   (date_range_query category start_date end_date)
                   (\<lambda>items.
                      [(''query_type'', JStr ''date_range_in_category''),
                       (''parameters'', JObj [(''category'', JStr category),
                                              (''start_date'', JStr start_date),
                                              (''end_date'', JStr end_date)]),
                       (''results'', JArr (map JObj items)),
                       (''count'', JInt (int (length items)))])
             | _ \<Rightarrow> ([], error_payload elapsed
                        ''daterange <category> <start_date> <end_date> [--table T]''))
          else if cmd = ''keyword'' then
            (case args of
               [] \<Rightarrow> ([], error_payload elapsed ''keyword <keyword> [--limit N] [--table T]'')
             | kw # rest \<Rightarrow>
                 (case limit_flag repr args of
                    Inl msg \<Rightarrow> ([], error_payload elapsed msg)
                  | Inr limit \<Rightarrow>
                      cli_ask store elapsed (table_flag args) (keyword_query kw limit)
                        (\<lambda>items.
                           [(''query_type'', JStr ''papers_by_keyword''),
                            (''parameters'', JObj [(''keyword'', JStr kw), (''limit'', JInt limit)]),
                            (''results'', JArr (map JObj items)),
                            (''count'', JInt (int (length items)))])))
          else ([], error_payload elapsed (''Unknown command: '' @ cmd)))"

text \<open>A store that answers every query with no items, for the examples.\<close>

definition empty_store :: store where
  "empty_store table qu = Inr []"

text \<open>A rendering of \<open>repr\<close> for the examples: the text between single quotes.\<close>

definition quoted :: "string \<Rightarrow> string" where
  "quoted s = [CHR 0x27] @ s @ [CHR 0x27]"


text \<open>
  A store that holds the Master entry of one paper whose identifier contains a slash,
  and answers the lookup of that identifier with it.
\<close>

definition slash_item :: dict where
  "slash_item =
     master_keys ''hep-th/9901001'' ''1999-01-01'' @
     [(''arxiv_id'', JStr ''hep-th/9901001''), (''categories'', JArr [JStr ''hep-th'']),
      (''published'', JStr ''1999-01-01T00:00:00Z'')]"

definition one_paper_store :: store where
  "one_paper_store table qu =
     (if qu = id_query ''hep-th/9901001'' then Inr [slash_item] else Inr [])"


section \<open>Properties\<close>

subsection \<open>Tokens and keywords\<close>

lemma runs_skip:
  assumes "runs cs ts" and "\<not> is_alpha c"
  shows "runs (c # cs) ts"
  using assms(1)
proof cases
  case no_run
  then show ?thesis using assms(2) by (simp add: runs.intros(1))
next
  case (one_run gap t rest ts')
  have "runs ((c # gap) @ t @ rest) (t # ts')"
    using one_run assms(2) by (intro runs.one_run) auto
  then show ?thesis using one_run by simp
qed

lemma runs_findall: "runs s (findall_alpha s)"
proof (induction s rule: findall_alpha.induct)
  case 1
  show ?case by (simp add: runs.no_run)
next
  case (2 c cs)
  show ?case
  proof (cases "is_alpha c")
    case True
    let ?t = "c # takeWhile is_alpha cs" and ?rest = "dropWhile is_alpha cs"
    have "runs ([] @ ?t @ ?rest) (?t # findall_alpha ?rest)"
    proof (rule runs.one_run)
      show "\<forall>c\<in>set ?t. is_alpha c" using True by (auto dest: set_takeWhileD)
      show "?rest = [] \<or> \<not> is_alpha (hd ?rest)" by (metis hd_dropWhile)
      show "runs ?rest (findall_alpha ?rest)" using 2 True by simp
    qed simp_all
    then show ?thesis using True by simp
  next
    case False
    then show ?thesis using 2 by (simp add: runs_skip)
  qed
qed

lemma findall_no_alpha: "\<forall>c\<in>set s. \<not> is_alpha c \<Longrightarrow> findall_alpha s = []"
  by (induction s) auto

lemma findall_gap: "\<forall>c\<in>set gap. \<not> is_alpha c \<Longrightarrow> findall_alpha (gap @ s) = findall_alpha s"
  by (induction gap) auto

lemma runs_unique: "runs s ts \<Longrightarrow> findall_alpha s = ts"
proof (induction rule: runs.induct)
  case (no_run s)
  then show ?case by (simp add: findall_no_alpha)
next
  case (one_run gap t rest ts)
  obtain c t' where t: "t = c # t'" using one_run.hyps(2) by (cases t) auto
  have tw: "takeWhile is_alpha (t' @ rest) = t'" "dropWhile is_alpha (t' @ rest) = rest"
    using one_run.hyps(3,4) t by (cases rest; simp add: takeWhile_append2 dropWhile_append2)+
  have "findall_alpha (gap @ t @ rest) = findall_alpha (t @ rest)"
    using one_run.hyps(1) by (rule findall_gap)
  also have "\<dots> = t # findall_alpha rest"
    using one_run.hyps(3) t tw by simp
  finally show ?case using one_run.IH by simp
qed

lemma first_index_append_in: "a \<in> set xs \<Longrightarrow> first_index (xs @ ys) a = first_index xs a"
  by (induction xs) auto

lemma first_index_snoc_new: "a \<notin> set xs \<Longrightarrow> first_index (xs @ [a]) a = length xs"
  by (induction xs) auto

lemma first_index_less: "a \<in> set xs \<Longrightarrow> first_index xs a < length xs"
  by (induction xs) auto

lemma keys_dict_set:
  "map fst (dict_set d k v) = (if k \<in> set (map fst d) then map fst d else map fst d @ [k])"
  by (induction d) force+

lemma map_of_dict_set: "map_of (dict_set d k v) = (map_of d)(k \<mapsto> v)"
  by (induction d) auto

lemma Counter_snoc: "Counter (ws @ [w]) = counter_add (Counter ws) w"
  by (simp add: Counter_def)

lemma Counter_keys: "set (map fst (Counter ws)) = set ws"
proof (induction ws rule: rev_induct)
  case Nil
  show ?case by (simp add: Counter_def)
next
  case (snoc w ws)
  then show ?case by (auto simp: Counter_snoc counter_add_def keys_dict_set)
qed

lemma Counter_keys_snoc:
  "map fst (Counter (ws @ [w])) =
     (if w \<in> set ws then map fst (Counter ws) else map fst (Counter ws) @ [w])"
  using Counter_keys [of ws] by (simp add: Counter_snoc counter_add_def keys_dict_set)

lemma Counter_distinct: "distinct (map fst (Counter ws))"
proof (induction ws rule: rev_induct)
  case Nil
  show ?case by (simp add: Counter_def)
next
  case (snoc w ws)
  then show ?case using Counter_keys [of ws] by (simp add: Counter_keys_snoc)
qed

lemma Counter_count:
  "map_of (Counter ws) a = (if a \<in> set ws then Some (count_list ws a) else None)"
proof (induction ws arbitrary: a rule: rev_induct)
  case Nil
  show ?case by (simp add: Counter_def)
next
  case (snoc w ws)
  then show ?case by (simp add: Counter_snoc counter_add_def map_of_dict_set)
qed

lemma Counter_order:
  "sorted_wrt (\<lambda>a b. first_index ws a < first_index ws b) (map fst (Counter ws))"
proof (induction ws rule: rev_induct)
  case Nil
  show ?case by (simp add: Counter_def)
next
  case (snoc w ws)
  let ?ks = "map fst (Counter ws)"
  have old: "sorted_wrt (\<lambda>a b. first_index (ws @ [w]) a < first_index (ws @ [w]) b) ?ks"
    using Counter_keys [of ws]
    by (intro sorted_wrt_mono_rel [OF _ snoc]) (simp add: first_index_append_in)
  show ?case
  proof (cases "w \<in> set ws")
    case True
    then show ?thesis using old by (simp add: Counter_keys_snoc)
  next
    case False
    have "\<forall>a\<in>set ?ks. first_index (ws @ [w]) a < first_index (ws @ [w]) w"
      using False Counter_keys [of ws]
      by (auto simp: first_index_append_in first_index_snoc_new first_index_less)
    then show ?thesis using False old by (simp add: Counter_keys_snoc sorted_wrt_append)
  qed
qed

lemma Counter_entry: "(w, n) \<in> set (Counter ws) \<Longrightarrow> n = count_list ws w"
  using Counter_count [of ws w] Counter_distinct [of ws]
  by (auto split: if_splits dest: map_of_SomeD)

lemma insort_key_rank:
  fixes f :: "'a \<Rightarrow> int" and g :: "'a \<Rightarrow> nat"
  assumes "sorted_wrt (\<lambda>p q. f p < f q \<or> (f p = f q \<and> g p < g q)) ys"
    and "\<forall>y\<in>set ys. g x < g y"
  shows "sorted_wrt (\<lambda>p q. f p < f q \<or> (f p = f q \<and> g p < g q)) (insort_key f x ys)"
  using assms by (induction ys) (auto simp: set_insort_key)

lemma sort_key_rank:
  fixes f :: "'a \<Rightarrow> int" and g :: "'a \<Rightarrow> nat"
  assumes "sorted_wrt (\<lambda>p q. g p < g q) xs"
  shows "sorted_wrt (\<lambda>p q. f p < f q \<or> (f p = f q \<and> g p < g q)) (sort_key f xs)"
  using assms
proof (induction xs)
  case Nil
  show ?case by simp
next
  case (Cons x xs)
  have "sorted_wrt (\<lambda>p q. f p < f q \<or> (f p = f q \<and> g p < g q)) (insort_key f x (sort_key f xs))"
    using Cons by (intro insort_key_rank) auto
  then show ?case by (simp add: sort_key_def)
qed

lemma ranking_set: "set (ranking toks) = set toks"
  using Counter_keys [of toks] by (simp add: ranking_def)

lemma ranking_distinct: "distinct (ranking toks)"
  using Counter_distinct [of toks] by (simp add: ranking_def distinct_map)

lemma ranking_sorted: "sorted_wrt (ranks_before toks) (ranking toks)"
proof -
  let ?f = "\<lambda>(w, n). - int n" and ?g = "\<lambda>p. first_index toks (fst p)"
  let ?R = "\<lambda>p q. ?f p < ?f q \<or> (?f p = ?f q \<and> ?g p < ?g q)"
  have "sorted_wrt (\<lambda>p q. ?g p < ?g q) (Counter toks)"
    using Counter_order [of toks] by (simp add: sorted_wrt_map)
  then have "sorted_wrt ?R (sort_key ?f (Counter toks))"
    by (rule sort_key_rank)
  moreover have "ranks_before toks (fst p) (fst q)"
    if "p \<in> set (sort_key ?f (Counter toks))" "q \<in> set (sort_key ?f (Counter toks))" "?R p q"
    for p q
  proof -
    obtain v m where p: "p = (v, m)" by (cases p)
    obtain w n where q: "q = (w, n)" by (cases q)
    have "m = count_list toks v" "n = count_list toks w"
      using that(1,2) p q by (auto dest: Counter_entry)
    then show ?thesis using that(3) p q by (auto simp: ranks_before_def)
  qed
  ultimately have
    "sorted_wrt (\<lambda>p q. ranks_before toks (fst p) (fst q)) (sort_key ?f (Counter toks))"
    by (rule sorted_wrt_mono_rel [rotated])
  then show ?thesis by (simp add: ranking_def sorted_wrt_map)
qed

lemma top_keywords_ranking:
  "top_keywords_from_abstract text k = take (nat k) (ranking (tokenize_words text))"
  by (cases "tokenize_words text = []")
    (simp_all add: top_keywords_from_abstract_def most_common_def ranking_def Counter_def take_map)

text \<open>
  Claim C4. For every text and every \<open>k\<close>, keyword extraction lowercases the text,
  takes the maximal runs of letters (the class \<open>[a-zA-Z]\<close>) as tokens, drops the tokens
  of length at most 2 and the stopwords, and returns at most \<open>k\<close> distinct tokens: the
  first \<open>k\<close> of the ranking by falling frequency in which a tie goes to the token seen
  first. Every token left out ranks after every token returned. A text with no token
  left (empty, or stopwords only) gives the empty sequence.
\<close>

theorem keyword_extraction:
  "(\<exists>ts. runs (lower text) ts \<and>
        tokenize_words text = filter (\<lambda>t. 2 < length t \<and> t \<notin> set STOPWORDS) ts) \<and>
   length (top_keywords_from_abstract text k) \<le> nat k \<and>
   length (top_keywords_from_abstract text k) = min (nat k) (card (set (tokenize_words text))) \<and>
   distinct (top_keywords_from_abstract text k) \<and>
   set (top_keywords_from_abstract text k) \<subseteq> set (tokenize_words text) \<and>
   (\<forall>i j. i < j \<and> j < length (top_keywords_from_abstract text k) \<longrightarrow>
      ranks_before (tokenize_words text)
        (top_keywords_from_abstract text k ! i) (top_keywords_from_abstract text k ! j)) \<and>
   (\<forall>v \<in> set (top_keywords_from_abstract text k).
      \<forall>w \<in> set (tokenize_words text) - set (top_keywords_from_abstract text k).
        ranks_before (tokenize_words text) v w) \<and>
   (tokenize_words text = [] \<longrightarrow> top_keywords_from_abstract text k = [])"
proof -
  let ?toks = "tokenize_words text" and ?r = "top_keywords_from_abstract text k"
  let ?L = "ranking ?toks"
  have r: "?r = take (nat k) ?L" by (rule top_keywords_ranking)
  have split: "?L = ?r @ drop (nat k) ?L" by (simp add: r)
  have srt: "sorted_wrt (ranks_before ?toks) (?r @ drop (nat k) ?L)"
    using ranking_sorted [of ?toks] split by simp
  have dist: "distinct (?r @ drop (nat k) ?L)"
    using ranking_distinct [of ?toks] split by simp
  have c1: "\<exists>ts. runs (lower text) ts \<and>
        ?toks = filter (\<lambda>t. 2 < length t \<and> t \<notin> set STOPWORDS) ts"
    using runs_findall [of "lower text"]
    by (intro exI [of _ "findall_alpha (lower text)"]) (auto simp: tokenize_words_def conj_commute)
  have c2: "length ?r \<le> nat k" by (simp add: r)
  have "length ?L = card (set ?toks)"
    using ranking_distinct [of ?toks] ranking_set [of ?toks] by (metis distinct_card)
  then have c3: "length ?r = min (nat k) (card (set ?toks))" by (simp add: r min.commute)
  have c4: "distinct ?r" using dist by simp
  have c5: "set ?r \<subseteq> set ?toks"
    using ranking_set [of ?toks] set_take_subset [of "nat k" ?L] by (simp add: r)
  have c6: "\<forall>i j. i < j \<and> j < length ?r \<longrightarrow> ranks_before ?toks (?r ! i) (?r ! j)"
  proof -
    have "sorted_wrt (ranks_before ?toks) ?r" using srt by (simp add: sorted_wrt_append)
    then show ?thesis by (simp add: sorted_wrt_iff_nth_less)
  qed
  have c7: "\<forall>v \<in> set ?r. \<forall>w \<in> set ?toks - set ?r. ranks_before ?toks v w"
  proof (intro ballI)
    fix v w assume v: "v \<in> set ?r" and w: "w \<in> set ?toks - set ?r"
    have "w \<in> set (?r @ drop (nat k) ?L)" using w ranking_set [of ?toks] split by simp
    then have "w \<in> set (drop (nat k) ?L)" using w by simp
    then show "ranks_before ?toks v w" using srt v by (simp add: sorted_wrt_append)
  qed
  have c8: "?toks = [] \<longrightarrow> ?r = []" by (simp add: top_keywords_from_abstract_def)
  show ?thesis using c1 c2 c3 c4 c5 c6 c7 c8 by blast
qed

theorem keyword_extraction_witness:
  "tokenize_words ''Deep nets; deep learning of the nets.'' = [''deep'', ''nets'', ''deep'', ''learning'', ''nets''] \<and>
   top_keywords_from_abstract ''Deep nets; deep learning of the nets.'' 2 = [''deep'', ''nets''] \<and>
   ranks_before (tokenize_words ''Deep nets; deep learning of the nets.'') ''deep'' ''nets'' \<and>
   ranks_before (tokenize_words ''Deep nets; deep learning of the nets.'') ''nets'' ''learning'' \<and>
   top_keywords_from_abstract ''of the'' 2 = []"
proof -
  let ?t = "''Deep nets; deep learning of the nets.''"
  have toks: "tokenize_words ?t = [''deep'', ''nets'', ''deep'', ''learning'', ''nets'']"
    by code_simp
  have r: "top_keywords_from_abstract ?t 2 = [''deep'', ''nets'']"
    by code_simp
  have e: "tokenize_words ''of the'' = []"
    by code_simp
  show ?thesis
    using keyword_extraction [of ?t 2] keyword_extraction [of "''of the''" 2]
    unfolding toks r e
    by (auto dest: spec [of _ 0])
qed

text \<open>
  Claim C5, as amended. On the text of the example with \<open>k = 10\<close>, \<open>the\<close> and \<open>method\<close>
  are stopwords and are left out; \<open>shows\<close> is not in the stopword set (\<open>show\<close> is) and
  is kept. The result is \<open>improvement\<close> (3 times), \<open>significant\<close> (twice), \<open>shows\<close>
  (once), in this order.
\<close>

theorem keywords_example:
  "top_keywords_from_abstract
     ''the method shows significant significant improvement improvement improvement'' 10 =
     [''improvement'', ''significant'', ''shows''] \<and>
   ''the'' \<in> set STOPWORDS \<and> ''method'' \<in> set STOPWORDS \<and> ''shows'' \<notin> set STOPWORDS"
  by code_simp

text \<open>
  Claim C5 as stated fails: \<open>shows\<close> is among the keywords returned, and three tokens
  come back, not two.
\<close>

theorem keywords_example_counterexample:
  "''shows'' \<in> set (top_keywords_from_abstract
     ''the method shows significant significant improvement improvement improvement'' 10) \<and>
   length (top_keywords_from_abstract
     ''the method shows significant significant improvement improvement improvement'' 10) = 3"
  by code_simp


subsection \<open>The publication date\<close>

lemma take_takeWhile_all:
  "\<forall>c\<in>set (take n s). P c \<Longrightarrow> n \<le> length s \<Longrightarrow>
     take n (takeWhile P s) = take n s \<and> n \<le> length (takeWhile P s)"
proof -
  assume a: "\<forall>c\<in>set (take n s). P c" and n: "n \<le> length s"
  have "takeWhile P (take n s @ drop n s) = take n s @ takeWhile P (drop n s)"
    using a by (simp add: takeWhile_append2 del: append_take_drop_id)
  then have "takeWhile P s = take n s @ takeWhile P (drop n s)" by simp
  then show ?thesis using n by (metis append_eq_conv_conj length_take min.absorb2 le_add1 length_append)
qed

lemma length_takeWhile_strict:
  "\<exists>x\<in>set xs. \<not> P x \<Longrightarrow> length (takeWhile P xs) < length xs"
  by (induction xs) auto

lemma takeWhile_short:
  "\<exists>c\<in>set (take n s). \<not> P c \<Longrightarrow> length (takeWhile P s) < n"
proof -
  assume a: "\<exists>c\<in>set (take n s). \<not> P c"
  obtain c where c: "c \<in> set (take n s)" "\<not> P c" using a by blast
  have "takeWhile P (take n s @ drop n s) = takeWhile P (take n s)"
    using c by (rule takeWhile_append1)
  then have "takeWhile P s = takeWhile P (take n s)" by simp
  moreover have "length (takeWhile P (take n s)) < length (take n s)"
    using a by (rule length_takeWhile_strict)
  ultimately show ?thesis by simp
qed

lemma ymd_length: "length (ymd str_of v) = 10"
  by (simp add: ymd_def sentinel_date_def Let_def)

text \<open>
  Claim C7, as amended. The date is the sentinel \<open>0000-00-00\<close> for an absent (falsy)
  value; for a string of at least ten characters with no \<open>T\<close> among its first ten it is
  those ten characters; for a string shorter than ten characters, or with a \<open>T\<close> among
  its first ten, it is the sentinel.
\<close>

theorem ymd_date_prefix:
  "(\<not> truthy v \<longrightarrow> ymd str_of v = sentinel_date) \<and>
   (10 \<le> length s \<and> CHR ''T'' \<notin> set (take 10 s) \<longrightarrow> ymd str_of (JStr s) = take 10 s) \<and>
   (length s' < 10 \<or> CHR ''T'' \<in> set (take 10 s') \<longrightarrow> ymd str_of (JStr s') = sentinel_date)"
proof (intro conjI impI)
  show "ymd str_of v = sentinel_date" if "\<not> truthy v"
    using that by (simp add: ymd_def)
next
  assume a: "10 \<le> length s \<and> CHR ''T'' \<notin> set (take 10 s)"
  then have ne: "s \<noteq> []" by auto
  have "take 10 (takeWhile (\<lambda>c. c \<noteq> CHR ''T'') s) = take 10 s \<and>
        10 \<le> length (takeWhile (\<lambda>c. c \<noteq> CHR ''T'') s)"
    using a by (intro take_takeWhile_all) auto
  then show "ymd str_of (JStr s) = take 10 s"
    using a ne by (simp add: ymd_def py_str_def Let_def)
next
  assume a: "length s' < 10 \<or> CHR ''T'' \<in> set (take 10 s')"
  show "ymd str_of (JStr s') = sentinel_date"
  proof (cases "CHR ''T'' \<in> set (take 10 s')")
    case True
    then have "length (takeWhile (\<lambda>c. c \<noteq> CHR ''T'') s') < 10"
      by (intro takeWhile_short) auto
    moreover have "CHR ''T'' \<in> set s'" using True by (auto dest: in_set_takeD)
    ultimately show ?thesis by (simp add: ymd_def py_str_def Let_def)
  next
    case False
    then have "length s' < 10" using a by simp
    moreover have "length (takeWhile (\<lambda>c. c \<noteq> CHR ''T'') s') \<le> length s'"
      by (rule length_takeWhile_le)
    ultimately show ?thesis by (simp add: ymd_def py_str_def Let_def)
  qed
qed

theorem ymd_date_prefix_witness:
  "ymd no_str JNull = sentinel_date \<and>
   ymd no_str (JStr ''2023-01-15T00:00:00Z'') = ''2023-01-15'' \<and>
   ymd no_str (JStr ''2023-1-5T00:00:00Z'') = sentinel_date"
  using ymd_date_prefix [of JNull no_str "''2023-01-15T00:00:00Z''" "''2023-1-5T00:00:00Z''"]
  by simp

text \<open>
  Claim C7 as stated fails: this timestamp has 18 characters, and its date is the
  sentinel, not its first ten characters, because the text before the \<open>T\<close> is short.
\<close>

theorem ymd_first_ten_counterexample:
  "10 \<le> length ''2023-1-5T00:00:00Z'' \<and>
   ymd no_str (JStr ''2023-1-5T00:00:00Z'') \<noteq> take 10 ''2023-1-5T00:00:00Z''"
  by (simp add: ymd_def py_str_def sentinel_date_def)


subsection \<open>The items of one paper\<close>

lemma dict_set_new: "k \<notin> set (map fst d) \<Longrightarrow> dict_set d k v = d @ [(k, v)]"
  by (induction d) auto

lemma dict_merge_disjoint:
  "distinct (map fst extra) \<Longrightarrow> set (map fst base) \<inter> set (map fst extra) = {} \<Longrightarrow>
     dict_merge base extra = base @ extra"
proof (induction extra arbitrary: base)
  case Nil
  show ?case by (simp add: dict_merge_def)
next
  case (Cons kv extra)
  obtain k v where kv: "kv = (k, v)" by (cases kv)
  have new: "k \<notin> set (map fst base)" using Cons.prems(2) kv by auto
  have "dict_merge base (kv # extra) = dict_merge (base @ [(k, v)]) extra"
    using new by (simp add: dict_merge_def kv dict_set_new)
  also have "\<dots> = (base @ [(k, v)]) @ extra"
    using Cons.prems kv by (intro Cons.IH) auto
  finally show ?case by (simp add: kv)
qed

lemma compact_append: "compact (a @ b) = compact a @ compact b"
  by (simp add: compact_def)

lemma compact_idem: "compact (compact d) = compact d"
  by (simp add: compact_def)

lemma compact_keys: "set (map fst (compact d)) \<subseteq> set (map fst d)"
  by (auto simp: compact_def)

lemma compact_distinct: "distinct (map fst d) \<Longrightarrow> distinct (map fst (compact d))"
  by (simp add: compact_def distinct_map_filter)

lemma collect_map:
  "(\<And>x. x \<in> set xs \<Longrightarrow> mk x = Inr (Some (f x)) \<and> f x \<noteq> []) \<Longrightarrow>
     collect mk xs = Inr (map f xs)"
  by (induction xs) auto

lemma merge_keys:
  assumes "paper_doc_ok P aid" and "set (map fst base) \<inter> set paper_fields = {}"
    and "compact base = base"
  shows "compact (dict_merge base P) = base @ P"
proof -
  have "dict_merge base P = base @ P"
    using assms by (intro dict_merge_disjoint) (auto simp: paper_doc_ok_def)
  then show ?thesis using assms by (simp add: compact_append paper_doc_ok_def)
qed

lemma make_master_item_ok:
  assumes "paper_doc_ok P aid" and "pd \<noteq> []"
  shows "make_master_item str_of P pd = Inr (master_keys aid pd @ P)"
proof -
  have "compact (dict_merge (master_keys aid pd) P) = master_keys aid pd @ P"
    using assms by (intro merge_keys) (simp_all add: master_keys_def paper_fields_def compact_def)
  then show ?thesis
    using assms
    by (simp add: make_master_item_def paper_doc_ok_def py_str_def or_sentinel_def Let_def master_keys_def)
qed

lemma make_category_item_ok:
  assumes "paper_doc_ok P aid" and "pd \<noteq> []"
  shows "make_category_item str_of P c pd = Inr (category_keys c aid pd @ P)"
proof -
  have "compact (dict_merge (category_keys c aid pd) P) = category_keys c aid pd @ P"
    using assms by (intro merge_keys) (simp_all add: category_keys_def paper_fields_def compact_def)
  then show ?thesis
    using assms
    by (simp add: make_category_item_def paper_doc_ok_def py_str_def or_sentinel_def Let_def category_keys_def)
qed

lemma make_author_item_ok:
  assumes "paper_doc_ok P aid" and "pd \<noteq> []" and "a \<noteq> []"
  shows "make_author_item str_of P a pd = Inr (Some (author_keys a aid pd @ P))"
proof -
  have "compact (dict_merge (author_keys a aid pd) P) = author_keys a aid pd @ P"
    using assms by (intro merge_keys) (simp_all add: author_keys_def paper_fields_def compact_def)
  then show ?thesis
    using assms
    by (simp add: make_author_item_def paper_doc_ok_def py_str_def or_sentinel_def Let_def author_keys_def)
qed

lemma make_keyword_item_ok:
  assumes "paper_doc_ok P aid" and "pd \<noteq> []" and "k \<noteq> []"
  shows "make_keyword_item str_of P (JStr k) pd = Inr (Some (keyword_keys (lower k) aid pd @ P))"
proof -
  have "compact (dict_merge (keyword_keys (lower k) aid pd) P) = keyword_keys (lower k) aid pd @ P"
    using assms by (intro merge_keys) (simp_all add: keyword_keys_def paper_fields_def compact_def)
  then show ?thesis
    using assms
    by (simp add: make_keyword_item_def paper_doc_ok_def py_str_def or_sentinel_def Let_def keyword_keys_def)
qed

lemma strip_nonempty: "strip s \<noteq> [] \<Longrightarrow> s \<noteq> []"
  by (auto simp: strip_def)

lemma str_items_nonempty: "a \<in> set (str_items xs) \<Longrightarrow> a \<noteq> []"
  by (auto simp: str_items_def List.map_filter_def split: json.splits if_splits dest: strip_nonempty)

lemma str_items_length: "length (str_items xs) \<le> length xs"
  by (simp add: str_items_def List.map_filter_def)

lemma paper_literal_ok:
  "aid \<noteq> [] \<Longrightarrow>
     paper_doc_ok (compact [(''arxiv_id'', JStr aid), (''title'', t), (''authors'', au),
       (''abstract'', ab), (''categories'', ca), (''keywords'', kw), (''published'', pu)]) aid"
  unfolding paper_doc_ok_def
proof (intro conjI)
  let ?doc = "[(''arxiv_id'', JStr aid), (''title'', t), (''authors'', au),
       (''abstract'', ab), (''categories'', ca), (''keywords'', kw), (''published'', pu)]"
  assume "aid \<noteq> []"
  then show "map_of (compact ?doc) ''arxiv_id'' = Some (JStr aid)" by (simp add: compact_def)
  show "distinct (map fst (compact ?doc))" by (rule compact_distinct) simp
  show "set (map fst (compact ?doc)) \<subseteq> set paper_fields"
    using compact_keys [of ?doc] by (simp add: paper_fields_def)
  show "compact (compact ?doc) = compact ?doc" by (rule compact_idem)
qed

lemma map_of_compact_absent: "k \<notin> set (map fst d) \<Longrightarrow> map_of (compact d) k = None"
  using compact_keys [of d] by (auto simp: map_of_eq_None_iff)

lemma map_of_compact:
  "distinct (map fst d) \<Longrightarrow>
     map_of (compact d) k =
       (case map_of d k of None \<Rightarrow> None
        | Some v \<Rightarrow> if v = JNull \<or> v = JStr [] \<or> v = JArr [] \<or> v = JObj [] then None else Some v)"
proof (induction d)
  case Nil
  show ?case by (simp add: compact_def)
next
  case (Cons kv d)
  obtain k' v' where kv: "kv = (k', v')" by (cases kv)
  show ?case
  proof (cases "k' = k")
    case True
    then have "map_of (compact d) k = None"
      using Cons.prems kv by (intro map_of_compact_absent) auto
    then show ?thesis using True kv by (simp add: compact_def)
  next
    case False
    then show ?thesis using Cons kv by (simp add: compact_def)
  qed
qed

lemma paper_literal_keywords:
  "py_iter (case map_of (compact [(''arxiv_id'', ai), (''title'', t), (''authors'', au),
       (''abstract'', ab), (''categories'', ca), (''keywords'', JArr (map JStr kws)),
       (''published'', pu)]) ''keywords'' of None \<Rightarrow> JArr [] | Some v \<Rightarrow> v) =
     Inr (map JStr kws)"
  by (subst map_of_compact) simp_all

lemma top_keywords_nonempty: "w \<in> set (top_keywords_from_abstract a k) \<Longrightarrow> w \<noteq> []"
proof -
  assume "w \<in> set (top_keywords_from_abstract a k)"
  then have "w \<in> set (tokenize_words a)"
    using ranking_set [of "tokenize_words a"] by (auto simp: top_keywords_ranking dest: in_set_takeD)
  then show ?thesis by (auto simp: tokenize_words_def)
qed

lemma top_keywords_length: "0 \<le> k \<Longrightarrow> int (length (top_keywords_from_abstract a k)) \<le> k"
  by (simp add: top_keywords_ranking)

lemma ymd_nonempty: "ymd str_of v \<noteq> []"
  using ymd_length [of str_of v] by auto

lemma build_paper_SomeD:
  assumes "build_paper str_of p = Inr (Some n)"
  shows "\<exists>aid ab. aid \<noteq> [] \<and> paper_doc_ok (paper n) aid \<and> categories n \<noteq> [] \<and>
           (\<forall>a\<in>set (authors n). a \<noteq> []) \<and> pub_date n \<noteq> [] \<and>
           py_iter (case map_of (paper n) ''keywords'' of None \<Rightarrow> JArr [] | Some v \<Rightarrow> v) =
             Inr (map JStr (top_keywords_from_abstract ab 10))"
proof (cases p)
  case (JObj d)
  from assms obtain aid ti ra ab rc where
    aid: "aid \<noteq> []" and cats: "str_items rc \<noteq> []" and
    n: "n = \<lparr>paper = compact
                [(''arxiv_id'', JStr aid), (''title'', JStr ti),
                 (''authors'', JArr (map JStr (str_items ra))), (''abstract'', JStr ab),
                 (''categories'', JArr (map JStr (str_items rc))),
                 (''keywords'', JArr (map JStr (top_keywords_from_abstract ab 10))),
                 (''published'', py_or (py_get d ''published'')
                    (JStr (ymd str_of (py_or (py_or (py_get d ''published'') (py_get d ''date'')) (JStr '''')) @ ''T00:00:00Z'')))],
              categories = str_items rc, authors = str_items ra,
              pub_date = ymd str_of (py_or (py_or (py_get d ''published'') (py_get d ''date'')) (JStr ''''))\<rparr>"
    unfolding build_paper_def JObj bind_err_def Let_def
    by (simp split: sum.splits if_splits) blast
  show ?thesis
    unfolding n
    by (intro exI [of _ aid] exI [of _ ab])
       (simp add: aid cats paper_literal_ok paper_literal_keywords ymd_nonempty str_items_nonempty)
qed (use assms in \<open>simp_all add: build_paper_def\<close>)

lemma generate_items_ok:
  assumes P: "paper_doc_ok (paper n) aid" and pd: "pub_date n \<noteq> []"
    and au: "\<forall>a\<in>set (authors n). a \<noteq> []"
    and kw: "py_iter (case map_of (paper n) ''keywords'' of None \<Rightarrow> JArr [] | Some v \<Rightarrow> v) =
               Inr (map JStr kws)"
    and kne: "\<forall>k\<in>set kws. k \<noteq> []"
  shows "generate_items str_of n =
     Inr \<lparr>master_items = [master_keys aid (pub_date n) @ paper n],
          category_items = map (\<lambda>c. category_keys c aid (pub_date n) @ paper n) (categories n),
          author_items = map (\<lambda>a. author_keys a aid (pub_date n) @ paper n) (authors n),
          keyword_items = map (\<lambda>k. keyword_keys (lower k) aid (pub_date n) @ paper n) kws\<rparr>"
proof -
  have m: "make_master_item str_of (paper n) (pub_date n) = Inr (master_keys aid (pub_date n) @ paper n)"
    using P pd by (rule make_master_item_ok)
  have c: "collect (\<lambda>c. map_sum id Some (make_category_item str_of (paper n) c (pub_date n)))
             (categories n) =
           Inr (map (\<lambda>c. category_keys c aid (pub_date n) @ paper n) (categories n))"
    by (rule collect_map) (simp add: make_category_item_ok [OF P pd] category_keys_def)
  have a: "collect (\<lambda>a. make_author_item str_of (paper n) a (pub_date n)) (authors n) =
           Inr (map (\<lambda>a. author_keys a aid (pub_date n) @ paper n) (authors n))"
    by (rule collect_map) (simp add: make_author_item_ok [OF P pd] au author_keys_def)
  have k: "collect (\<lambda>kw. make_keyword_item str_of (paper n) kw (pub_date n)) (map JStr kws) =
           Inr (map (\<lambda>k. keyword_keys (lower k) aid (pub_date n) @ paper n) kws)"
    using kne
  proof (induction kws)
    case Nil
    show ?case by simp
  next
    case (Cons k kws)
    then show ?case by (simp add: make_keyword_item_ok [OF P pd] keyword_keys_def)
  qed
  show ?thesis
    by (simp add: generate_items_def bind_err_def m c a kw k)
qed

lemma kind_count_append: "kind_count t (xs @ ys) = kind_count t xs + kind_count t ys"
  by (simp add: kind_count_def)

lemma kind_count_map:
  "(\<And>x. map_of (f x) ''item_type'' = Some (JStr t')) \<Longrightarrow>
     kind_count t (map f xs) = (if t = t' then length xs else 0)"
  by (induction xs) (auto simp: kind_count_def)

lemma transform_paper_SomeE:
  assumes "transform_paper str_of p = Inr (Some g)"
  obtains n aid ab where
    "build_paper str_of p = Inr (Some n)" and "aid \<noteq> []" and "pub_date n \<noteq> []" and
    "set (map fst (paper n)) \<subseteq> set paper_fields" and
    "g = \<lparr>master_items = [master_keys aid (pub_date n) @ paper n],
          category_items = map (\<lambda>c. category_keys c aid (pub_date n) @ paper n) (categories n),
          author_items = map (\<lambda>a. author_keys a aid (pub_date n) @ paper n) (authors n),
          keyword_items = map (\<lambda>k. keyword_keys (lower k) aid (pub_date n) @ paper n)
                            (top_keywords_from_abstract ab 10)\<rparr>" and
    "\<forall>a\<in>set (authors n). a \<noteq> []" and "categories n \<noteq> []"
proof -
  from assms obtain n where n: "build_paper str_of p = Inr (Some n)"
    and gen: "generate_items str_of n = Inr g"
    by (auto simp: transform_paper_def bind_err_def split: sum.splits option.splits)
  from build_paper_SomeD [OF n] obtain aid ab where
    f: "aid \<noteq> []" "paper_doc_ok (paper n) aid" "categories n \<noteq> []"
       "\<forall>a\<in>set (authors n). a \<noteq> []" "pub_date n \<noteq> []"
       "py_iter (case map_of (paper n) ''keywords'' of None \<Rightarrow> JArr [] | Some v \<Rightarrow> v) =
             Inr (map JStr (top_keywords_from_abstract ab 10))"
    by blast
  have "\<forall>k\<in>set (top_keywords_from_abstract ab 10). k \<noteq> []"
    by (auto dest: top_keywords_nonempty)
  from generate_items_ok [OF f(2) f(5) f(4) f(6) this, of str_of] gen
  have g: "g = \<lparr>master_items = [master_keys aid (pub_date n) @ paper n],
          category_items = map (\<lambda>c. category_keys c aid (pub_date n) @ paper n) (categories n),
          author_items = map (\<lambda>a. author_keys a aid (pub_date n) @ paper n) (authors n),
          keyword_items = map (\<lambda>k. keyword_keys (lower k) aid (pub_date n) @ paper n)
                            (top_keywords_from_abstract ab 10)\<rparr>"
    by simp
  have sub: "set (map fst (paper n)) \<subseteq> set paper_fields"
    using f(2) by (simp add: paper_doc_ok_def)
  show ?thesis by (rule that [OF n f(1) f(5) sub g f(4) f(3)])
qed

lemma opt_str_strip: "opt_str v \<Longrightarrow> py_strip (py_or v (JStr [])) = Inr (strip (field_text v))"
  by (cases v) (auto simp: opt_str_def py_or_def py_strip_def field_text_def strip_def)

lemma opt_str_or: "opt_str a \<Longrightarrow> opt_str b \<Longrightarrow> opt_str (py_or a b)"
  by (simp add: py_or_def)

lemma opt_arr_iter: "opt_arr v \<Longrightarrow> py_iter (py_or v (JArr [])) = Inr (field_list v)"
  by (cases v) (auto simp: opt_arr_def py_or_def field_list_def)

lemma build_paper_wf:
  assumes "well_formed d"
  shows "build_paper str_of (JObj d) =
    (if raw_id d = [] then Inr None
     else if surviving d ''categories'' = [] then Inr None
     else Inr (Some
       \<lparr>paper = compact
          [(''arxiv_id'', JStr (raw_id d)),
           (''title'', JStr (strip (field_text (py_get d ''title'')))),
           (''authors'', JArr (map JStr (surviving d ''authors''))),
           (''abstract'', JStr (strip (field_text (py_get d ''abstract'')))),
           (''categories'', JArr (map JStr (surviving d ''categories''))),
           (''keywords'', JArr (map JStr
              (top_keywords_from_abstract (strip (field_text (py_get d ''abstract''))) 10))),
           (''published'', py_or (py_get d ''published'')
              (JStr (ymd str_of (py_or (py_or (py_get d ''published'') (py_get d ''date'')) (JStr ''''))
                      @ ''T00:00:00Z'')))],
        categories = surviving d ''categories'',
        authors = surviving d ''authors'',
        pub_date = ymd str_of (py_or (py_or (py_get d ''published'') (py_get d ''date'')) (JStr ''''))\<rparr>))"
proof -
  have s: "opt_str (py_get d ''arxiv_id'')" "opt_str (py_get d ''id'')"
    "opt_str (py_get d ''title'')" "opt_str (py_get d ''abstract'')"
    and a: "opt_arr (py_get d ''authors'')" "opt_arr (py_get d ''categories'')"
    using assms by (simp_all add: well_formed_def)
  have i: "py_strip (py_or (py_or (py_get d ''arxiv_id'') (py_get d ''id'')) (JStr '''')) =
           Inr (raw_id d)"
    using opt_str_strip [OF opt_str_or [OF s(1,2)]] by (simp add: raw_id_def)
  show ?thesis
    unfolding build_paper_def
    by (simp add: i opt_str_strip [OF s(3)] opt_str_strip [OF s(4)] opt_arr_iter [OF a(1)]
        opt_arr_iter [OF a(2)] bind_err_def surviving_def Let_def)
qed

lemma entry_type:
  "map_of (master_keys aid pd @ P) ''item_type'' = Some (JStr ''MASTER'')"
  "map_of (category_keys c aid pd @ P) ''item_type'' = Some (JStr ''CATEGORY'')"
  "map_of (author_keys a aid pd @ P) ''item_type'' = Some (JStr ''AUTHOR'')"
  "map_of (keyword_keys k aid pd @ P) ''item_type'' = Some (JStr ''KEYWORD'')"
  by (simp_all add: master_keys_def category_keys_def author_keys_def keyword_keys_def)

lemma kind_count_entries:
  "kind_count t [master_keys aid pd @ P] = (if t = ''MASTER'' then 1 else 0)"
  "kind_count t (map (\<lambda>c. category_keys c aid pd @ P) cs) = (if t = ''CATEGORY'' then length cs else 0)"
  "kind_count t (map (\<lambda>a. author_keys a aid pd @ P) as) = (if t = ''AUTHOR'' then length as else 0)"
  "kind_count t (map (\<lambda>k. keyword_keys (f k) aid pd @ P) ks) = (if t = ''KEYWORD'' then length ks else 0)"
proof -
  show "kind_count t [master_keys aid pd @ P] = (if t = ''MASTER'' then 1 else 0)"
    using entry_type(1) [of aid pd P] by (auto simp add: kind_count_def simp del: map_of_append)
  show "kind_count t (map (\<lambda>c. category_keys c aid pd @ P) cs) = (if t = ''CATEGORY'' then length cs else 0)"
    by (rule kind_count_map) (rule entry_type)
  show "kind_count t (map (\<lambda>a. author_keys a aid pd @ P) as) = (if t = ''AUTHOR'' then length as else 0)"
    by (rule kind_count_map) (rule entry_type)
  show "kind_count t (map (\<lambda>k. keyword_keys (f k) aid pd @ P) ks) = (if t = ''KEYWORD'' then length ks else 0)"
    by (rule kind_count_map) (rule entry_type)
qed

lemma kind_count_items:
  "kind_count t (m # cs @ as @ ks) =
     kind_count t [m] + kind_count t cs + kind_count t as + kind_count t ks"
  by (simp add: kind_count_def)

text \<open>
  Claim C1. A raw paper of the input format with a non-empty trimmed identifier and at
  least one surviving category passes: its items are exactly one Master item, one
  Category item per surviving category, one Author item per surviving author (at most
  as many as the raw paper lists), and one Keyword item per extracted keyword (at most
  ten); there is no other item.
\<close>

theorem items_per_paper:
  assumes "well_formed d" and "raw_id d \<noteq> []" and "surviving d ''categories'' \<noteq> []"
  shows "\<exists>g. transform_paper str_of (JObj d) = Inr (Some g) \<and>
     kind_count ''MASTER'' (items_of g) = 1 \<and>
     kind_count ''CATEGORY'' (items_of g) = length (surviving d ''categories'') \<and>
     kind_count ''AUTHOR'' (items_of g) = length (surviving d ''authors'') \<and>
     length (surviving d ''authors'') \<le> length (field_list (py_get d ''authors'')) \<and>
     kind_count ''KEYWORD'' (items_of g) =
       length (top_keywords_from_abstract (strip (field_text (py_get d ''abstract''))) 10) \<and>
     kind_count ''KEYWORD'' (items_of g) \<le> 10 \<and>
     length (items_of g) =
       kind_count ''MASTER'' (items_of g) + kind_count ''CATEGORY'' (items_of g) +
       kind_count ''AUTHOR'' (items_of g) + kind_count ''KEYWORD'' (items_of g)"
proof -
  let ?ab = "strip (field_text (py_get d ''abstract''))"
  let ?kws = "top_keywords_from_abstract ?ab 10"
  obtain n where n: "build_paper str_of (JObj d) = Inr (Some n)"
    and c: "categories n = surviving d ''categories''"
    and a: "authors n = surviving d ''authors''"
    and P: "paper_doc_ok (paper n) (raw_id d)"
    and kw: "py_iter (case map_of (paper n) ''keywords'' of None \<Rightarrow> JArr [] | Some v \<Rightarrow> v) =
               Inr (map JStr ?kws)"
    and pd: "pub_date n \<noteq> []"
    using assms
    by (simp add: build_paper_wf paper_literal_ok paper_literal_keywords ymd_nonempty)
  let ?g = "\<lparr>master_items = [master_keys (raw_id d) (pub_date n) @ paper n],
          category_items = map (\<lambda>c. category_keys c (raw_id d) (pub_date n) @ paper n) (categories n),
          author_items = map (\<lambda>a. author_keys a (raw_id d) (pub_date n) @ paper n) (authors n),
          keyword_items = map (\<lambda>k. keyword_keys (lower k) (raw_id d) (pub_date n) @ paper n) ?kws\<rparr>"
  have "generate_items str_of n = Inr ?g"
    using P pd
  proof (rule generate_items_ok)
    show "\<forall>a\<in>set (authors n). a \<noteq> []" by (auto simp: a surviving_def dest: str_items_nonempty)
    show "py_iter (case map_of (paper n) ''keywords'' of None \<Rightarrow> JArr [] | Some v \<Rightarrow> v) =
               Inr (map JStr ?kws)" by (rule kw)
    show "\<forall>k\<in>set ?kws. k \<noteq> []" by (auto dest: top_keywords_nonempty)
  qed
  then have t: "transform_paper str_of (JObj d) = Inr (Some ?g)"
    by (simp add: transform_paper_def n bind_err_def)
  have len: "length ?kws \<le> 10"
    using top_keywords_length [of 10 ?ab] by simp
  have au: "length (surviving d ''authors'') \<le> length (field_list (py_get d ''authors''))"
    by (simp add: surviving_def str_items_length)
  show ?thesis
    using t len au
    by (intro exI [of _ ?g])
       (simp add: items_of_def kind_count_items kind_count_entries c a)
qed

lemma ex_wf: "well_formed example_paper"
  by (simp add: well_formed_def example_paper_def py_get_def opt_str_def opt_arr_def)

lemma ex_id: "raw_id example_paper = ''a1''"
  by code_simp

lemma ex_cats: "surviving example_paper ''categories'' = [''cs.LG'']"
  by code_simp

lemma ex_auth: "surviving example_paper ''authors'' = [''A. Smith'']"
  by code_simp

lemma ex_kw: "top_keywords_from_abstract (strip (field_text (py_get example_paper ''abstract''))) 10
   = [''deep'', ''learning'', ''models'']"
  by code_simp

theorem items_per_paper_witness:
  "\<exists>g. transform_paper no_str (JObj example_paper) = Inr (Some g) \<and>
     kind_count ''MASTER'' (items_of g) = 1 \<and>
     kind_count ''CATEGORY'' (items_of g) = 1 \<and>
     kind_count ''AUTHOR'' (items_of g) = 1 \<and>
     kind_count ''KEYWORD'' (items_of g) = 3 \<and>
     length (items_of g) = 6"
proof -
  from items_per_paper [of example_paper no_str] obtain g where
    "transform_paper no_str (JObj example_paper) = Inr (Some g)"
    "kind_count ''MASTER'' (items_of g) = 1"
    "kind_count ''CATEGORY'' (items_of g) = 1"
    "kind_count ''AUTHOR'' (items_of g) = 1"
    "kind_count ''KEYWORD'' (items_of g) = 3"
    "length (items_of g) = 6"
    by (auto simp: ex_wf ex_id ex_cats ex_auth ex_kw)
  then show ?thesis by blast
qed


subsection \<open>Skipped papers\<close>

text \<open>
  Claim C6. A raw paper of the input format whose identifier is missing or empty after
  trimming, or whose filtered categories are empty, is skipped: no item is generated
  for it, and the loop goes on with the remaining papers from the same table and the
  same counters, so nothing is written for it.
\<close>

theorem skipped_papers:
  assumes "well_formed d" and "raw_id d = [] \<or> surviving d ''categories'' = []"
  shows "transform_paper str_of (JObj d) = Inr None \<and>
         transform_loop str_of t st (JObj d # ps) = transform_loop str_of t st ps \<and>
         transform_and_write str_of t [JObj d] = transform_and_write str_of t []"
proof -
  have "build_paper str_of (JObj d) = Inr None"
    using assms by (auto simp: build_paper_wf)
  then have "transform_paper str_of (JObj d) = Inr None"
    by (simp add: transform_paper_def bind_err_def)
  then show ?thesis by (simp add: transform_and_write_def)
qed

theorem skipped_papers_witness:
  "transform_paper no_str (JObj paper_without_id) = Inr None \<and>
   transform_paper no_str (JObj paper_without_category) = Inr None \<and>
   transform_and_write no_str empty_table [JObj paper_without_id, JObj paper_without_category, JObj example_paper]
     = transform_and_write no_str empty_table [JObj example_paper]"
proof -
  have w1: "well_formed paper_without_id" and w2: "well_formed paper_without_category"
    by (simp_all add: well_formed_def paper_without_id_def paper_without_category_def
        py_get_def opt_str_def opt_arr_def)
  have i: "raw_id paper_without_id = []" by code_simp
  have c: "surviving paper_without_category ''categories'' = []" by code_simp
  show ?thesis
    using skipped_papers [OF w1, of no_str] skipped_papers [OF w2, of no_str] i c
    by (simp add: transform_and_write_def)
qed


subsection \<open>Key attributes\<close>

lemma key_of_entry:
  assumes "set (map fst P) \<subseteq> set paper_fields" and "k \<in> set key_attributes"
  shows "map_of (keys @ P) k = map_of keys k"
proof -
  have "k \<notin> set (map fst P)"
    using assms by (auto simp: paper_fields_def key_attributes_def)
  then have "map_of P k = None" by (simp add: map_of_eq_None_iff)
  then show ?thesis by (simp add: map_add_def split: option.splits)
qed

lemma entry_keys_nonempty:
  assumes "pd \<noteq> []" and "k \<in> set key_attributes"
  shows "map_of (master_keys aid pd) k = Some v \<Longrightarrow> \<exists>s. v = JStr s \<and> s \<noteq> []"
    and "map_of (category_keys c aid pd) k = Some v \<Longrightarrow> \<exists>s. v = JStr s \<and> s \<noteq> []"
    and "map_of (author_keys a aid pd) k = Some v \<Longrightarrow> \<exists>s. v = JStr s \<and> s \<noteq> []"
    and "map_of (keyword_keys w aid pd) k = Some v \<Longrightarrow> \<exists>s. v = JStr s \<and> s \<noteq> []"
  using assms
  by (auto simp: master_keys_def category_keys_def author_keys_def keyword_keys_def
      split: if_splits)

lemma entry_primary_key:
  "truthy (py_get (master_keys aid pd @ P) ''PK'') \<and> truthy (py_get (master_keys aid pd @ P) ''SK'')"
  "truthy (py_get (category_keys c aid pd @ P) ''PK'') \<and> truthy (py_get (category_keys c aid pd @ P) ''SK'')"
  "truthy (py_get (author_keys a aid pd @ P) ''PK'') \<and> truthy (py_get (author_keys a aid pd @ P) ''SK'')"
  "truthy (py_get (keyword_keys w aid pd @ P) ''PK'') \<and> truthy (py_get (keyword_keys w aid pd @ P) ''SK'')"
  by (simp_all add: master_keys_def category_keys_def author_keys_def keyword_keys_def py_get_def)

lemma submitted_all:
  "\<forall>it\<in>set its. truthy (py_get it ''PK'') \<and> truthy (py_get it ''SK'') \<Longrightarrow>
     submitted (map Some its) = its"
  by (induction its) (auto simp: submitted_def List.map_filter_def)

lemma submitted_set:
  "set (submitted items) =
     {it. Some it \<in> set items \<and> truthy (py_get it ''PK'') \<and> truthy (py_get it ''SK'')}"
  by (induction items) (auto simp: submitted_def List.map_filter_def split: option.splits)

lemma items_of_cases:
  assumes "it \<in> set (items_of \<lparr>master_items = [m], category_items = map fc cs,
             author_items = map fa as, keyword_items = map fk ks\<rparr>)"
  shows "it = m \<or> (\<exists>c. it = fc c) \<or> (\<exists>a. it = fa a) \<or> (\<exists>k. it = fk k)"
  using assms by (auto simp: items_of_def)

lemma entry_key_value:
  assumes pd: "pd \<noteq> []" and f: "set (map fst P) \<subseteq> set paper_fields"
    and k: "k \<in> set key_attributes"
    and it: "it = master_keys aid pd @ P \<or> (\<exists>c. it = category_keys c aid pd @ P) \<or>
             (\<exists>a. it = author_keys a aid pd @ P) \<or> (\<exists>w. it = keyword_keys w aid pd @ P)"
    and v: "map_of it k = Some v"
  shows "\<exists>s. v = JStr s \<and> s \<noteq> []"
proof -
  note key = key_of_entry [OF f k]
  from it show ?thesis
  proof (elim disjE exE)
    assume "it = master_keys aid pd @ P"
    then have "map_of (master_keys aid pd) k = Some v" using v key by metis
    then show ?thesis by (rule entry_keys_nonempty(1) [OF pd k])
  next
    fix c assume "it = category_keys c aid pd @ P"
    then have "map_of (category_keys c aid pd) k = Some v" using v key by metis
    then show ?thesis by (rule entry_keys_nonempty(2) [OF pd k])
  next
    fix a assume "it = author_keys a aid pd @ P"
    then have "map_of (author_keys a aid pd) k = Some v" using v key by metis
    then show ?thesis by (rule entry_keys_nonempty(3) [OF pd k])
  next
    fix w assume "it = keyword_keys w aid pd @ P"
    then have "map_of (keyword_keys w aid pd) k = Some v" using v key by metis
    then show ?thesis by (rule entry_keys_nonempty(4) [OF pd k])
  qed
qed

lemma entry_key_present:
  assumes "it = master_keys aid pd @ P \<or> (\<exists>c. it = category_keys c aid pd @ P) \<or>
             (\<exists>a. it = author_keys a aid pd @ P) \<or> (\<exists>w. it = keyword_keys w aid pd @ P)"
  shows "truthy (py_get it ''PK'') \<and> truthy (py_get it ''SK'')"
  using assms entry_primary_key by (elim disjE exE) blast+

text \<open>
  Claim C2. On every item generated for a paper, each key attribute that is present
  (\<open>PK\<close>, \<open>SK\<close> and the index keys) is a non-empty string, and \<open>PK\<close> and \<open>SK\<close> are present;
  so the batch writer submits every generated item. An empty author or keyword gives
  no item. Of any items handed to it, the batch writer submits exactly those that are
  not \<open>None\<close> and whose \<open>PK\<close> and \<open>SK\<close> are both present and non-empty.
\<close>

theorem key_attributes_nonempty:
  assumes "transform_paper str_of p = Inr (Some g)"
  shows "(\<forall>it\<in>set (items_of g). \<forall>k\<in>set key_attributes. \<forall>v.
            map_of it k = Some v \<longrightarrow> (\<exists>s. v = JStr s \<and> s \<noteq> [])) \<and>
         (\<forall>it\<in>set (items_of g). truthy (py_get it ''PK'') \<and> truthy (py_get it ''SK'')) \<and>
         submitted (map Some (items_of g)) = items_of g \<and>
         set (submitted items) =
           {it. Some it \<in> set items \<and> truthy (py_get it ''PK'') \<and> truthy (py_get it ''SK'')} \<and>
         make_author_item str_of P [] pd = Inr None \<and>
         make_keyword_item str_of P (JStr []) pd = Inr None"
proof -
  from assms obtain n aid ab where
    "build_paper str_of p = Inr (Some n)" and "aid \<noteq> []" and
    pd: "pub_date n \<noteq> []" and f: "set (map fst (paper n)) \<subseteq> set paper_fields" and
    g: "g = \<lparr>master_items = [master_keys aid (pub_date n) @ paper n],
          category_items = map (\<lambda>c. category_keys c aid (pub_date n) @ paper n) (categories n),
          author_items = map (\<lambda>a. author_keys a aid (pub_date n) @ paper n) (authors n),
          keyword_items = map (\<lambda>k. keyword_keys (lower k) aid (pub_date n) @ paper n)
                            (top_keywords_from_abstract ab 10)\<rparr>" and
    "\<forall>a\<in>set (authors n). a \<noteq> []" and "categories n \<noteq> []"
    by (rule transform_paper_SomeE)
  have shape: "it = master_keys aid (pub_date n) @ paper n \<or>
      (\<exists>c. it = category_keys c aid (pub_date n) @ paper n) \<or>
      (\<exists>a. it = author_keys a aid (pub_date n) @ paper n) \<or>
      (\<exists>w. it = keyword_keys w aid (pub_date n) @ paper n)"
    if "it \<in> set (items_of g)" for it
    using items_of_cases [OF that [unfolded g]] by blast
  have a: "\<forall>it\<in>set (items_of g). \<forall>k\<in>set key_attributes. \<forall>v.
            map_of it k = Some v \<longrightarrow> (\<exists>s. v = JStr s \<and> s \<noteq> [])"
    using entry_key_value [OF pd f _ shape] by blast
  have b: "\<forall>it\<in>set (items_of g). truthy (py_get it ''PK'') \<and> truthy (py_get it ''SK'')"
    using entry_key_present [OF shape] by blast
  have c: "submitted (map Some (items_of g)) = items_of g"
    using b by (rule submitted_all)
  have d: "make_author_item str_of P [] pd = Inr None"
    by (simp add: make_author_item_def)
  have e: "make_keyword_item str_of P (JStr []) pd = Inr None"
    by (simp add: make_keyword_item_def)
  show ?thesis
    by (intro conjI) (rule a, rule b, rule c, rule submitted_set, rule d, rule e)
qed

lemma example_passes: "passes (transform_paper no_str (JObj example_paper))"
  by code_simp

theorem key_attributes_nonempty_witness:
  "\<exists>g. transform_paper no_str (JObj example_paper) = Inr (Some g) \<and>
     submitted (map Some (items_of g)) = items_of g \<and>
     list_all (\<lambda>it. truthy (py_get it ''PK'') \<and> truthy (py_get it ''SK'')) (items_of g)"
proof -
  obtain g where g: "transform_paper no_str (JObj example_paper) = Inr (Some g)"
    using example_passes by (auto simp: passes_def split: sum.splits option.splits)
  from key_attributes_nonempty [OF g] show ?thesis
    using g by (auto simp: list_all_iff)
qed


subsection \<open>Loading twice\<close>







subsection \<open>The date range\<close>

lemma lex_append_le:
  fixes a b :: "'a::linorder list"
  assumes "length a = length b"
  shows "a @ x \<le> b @ y \<longleftrightarrow> a < b \<or> (a = b \<and> x \<le> y)"
  using assms by (induction a b rule: list_induct2) auto

lemma low_bound:
  assumes "length start = length d"
  shows "start @ ''#'' \<le> d @ ''#'' @ ident \<longleftrightarrow> start \<le> d"
proof -
  have "(''#'' :: string) \<le> ''#'' @ ident" by simp
  then have "start @ ''#'' \<le> d @ ''#'' @ ident \<longleftrightarrow> start < d \<or> start = d"
    using lex_append_le [OF assms, of "''#''" "''#'' @ ident"] by blast
  then show ?thesis by (simp only: order_le_less)
qed

lemma high_bound:
  assumes "length end' = length d"
  shows "d @ ''#'' @ ident \<le> end' @ ''#zzzzzzz'' \<longleftrightarrow>
           d < end' \<or> (d = end' \<and> ident \<le> ''zzzzzzz'')"
  using lex_append_le [OF assms [symmetric], of "''#'' @ ident" "''#zzzzzzz''"] by simp

text \<open>
  Claim C3, as amended. The date-range query asks for the Category partition and the
  sort keys between \<open>{start}#\<close> and \<open>{end}#zzzzzzz\<close>, from the command line and from
  \<open>GET /papers/search\<close> alike. For an entry with sort key \<open>{d}#{id}\<close>, where \<open>d\<close>, \<open>start\<close>
  and \<open>end\<close> have the same length (as dates \<open>YYYY-MM-DD\<close> do), the entry is matched
  exactly when \<open>start \<le> d\<close> and either \<open>d < end\<close>, or \<open>d = end\<close> and the id itself
  sorts no later than \<open>zzzzzzz\<close>. So for an id that sorts no later than \<open>zzzzzzz\<close> the
  entry is matched exactly when \<open>start \<le> d \<le> end\<close>.
\<close>

theorem date_range_matches:
  assumes "length start = length d" and "length end' = length d"
    and "map_of it ''PK'' = Some (JStr (''CATEGORY#'' @ category))"
    and "map_of it ''SK'' = Some (JStr (d @ ''#'' @ ident))"
  shows "(cond_holds (KeyConditionExpression (date_range_query category start end')) it \<longleftrightarrow>
            start \<le> d \<and> (d < end' \<or> d = end' \<and> ident \<le> ''zzzzzzz'')) \<and>
         (ident \<le> ''zzzzzzz'' \<longrightarrow>
            (cond_holds (KeyConditionExpression (date_range_query category start end')) it \<longleftrightarrow>
               start \<le> d \<and> d \<le> end')) \<and>
         query_papers_in_date_range store table_name category start end' =
           store table_name (date_range_query category start end') \<and>
         (category \<noteq> [] \<and> start \<noteq> [] \<and> end' \<noteq> [] \<longrightarrow>
            fst (do_GET unquote store ''/papers/search''
                   [(''category'', category, []), (''start'', start, []), (''end'', end', [])]) =
              [(DEFAULT_TABLE, date_range_query category start end')])"
proof -
  have m: "cond_holds (KeyConditionExpression (date_range_query category start end')) it \<longleftrightarrow>
            start \<le> d \<and> (d < end' \<or> d = end' \<and> ident \<le> ''zzzzzzz'')"
    using assms(3,4) low_bound [OF assms(1), of ident] high_bound [OF assms(2), of ident]
    by (simp add: date_range_query_def)
  have h: "fst (do_GET unquote store ''/papers/search''
                   [(''category'', category, []), (''start'', start, []), (''end'', end', [])]) =
              [(DEFAULT_TABLE, date_range_query category start end')]"
    if "category \<noteq> [] \<and> start \<noteq> [] \<and> end' \<noteq> []"
    using that
    by (simp add: do_GET_def first_param_def startswith_def ask_def date_range_query_def)
  show ?thesis
    using m h by (auto simp: query_papers_in_date_range_def le_less)
qed

theorem date_range_matches_witness:
  "cond_holds (KeyConditionExpression (date_range_query ''cs.LG'' ''2023-05-01'' ''2023-05-31''))
     [(''PK'', JStr ''CATEGORY#cs.LG''), (''SK'', JStr ''2023-05-31#2305.00001'')] \<and>
   \<not> cond_holds (KeyConditionExpression (date_range_query ''cs.LG'' ''2023-05-01'' ''2023-05-31''))
     [(''PK'', JStr ''CATEGORY#cs.LG''), (''SK'', JStr ''2023-06-01#2306.00001'')]"
  using date_range_matches [of "''2023-05-01''" "''2023-05-31''" "''2023-05-31''"
      "[(''PK'', JStr ''CATEGORY#cs.LG''), (''SK'', JStr ''2023-05-31#2305.00001'')]"
      "''cs.LG''" "''2305.00001''"]
    date_range_matches [of "''2023-05-01''" "''2023-06-01''" "''2023-05-31''"
      "[(''PK'', JStr ''CATEGORY#cs.LG''), (''SK'', JStr ''2023-06-01#2306.00001'')]"
      "''cs.LG''" "''2306.00001''"]
  by simp

text \<open>
  Claim C3 as stated fails twice. An id made of the letter \<open>z\<close> alone, eight times,
  is drawn from an alphabet that sorts no later than \<open>z\<close>, yet it sorts after
  \<open>zzzzzzz\<close>: its entry, dated on the last day of the range, is not matched. And with
  dates of different lengths the lexical order of the dates is not the order of the
  sort keys: \<open>2023 05 01\<close> lies between \<open>2023\<close> and \<open>2024\<close>, and its entry is not matched.
\<close>

theorem date_range_counterexample:
  "list_all (\<lambda>c. c \<le> CHR ''z'') ''zzzzzzzz'' \<and>
   (''2023-05-01'' :: string) \<le> ''2023-05-31'' \<and> (''2023-05-31'' :: string) \<le> ''2023-05-31'' \<and>
   \<not> cond_holds (KeyConditionExpression (date_range_query ''cs.LG'' ''2023-05-01'' ''2023-05-31''))
     [(''PK'', JStr ''CATEGORY#cs.LG''), (''SK'', JStr ''2023-05-31#zzzzzzzz'')] \<and>
   (''2023'' :: string) \<le> ''2023 05 01'' \<and> (''2023 05 01'' :: string) \<le> ''2024'' \<and>
   (''a1'' :: string) \<le> ''zzzzzzz'' \<and>
   \<not> cond_holds (KeyConditionExpression (date_range_query ''cs.LG'' ''2023'' ''2024''))
     [(''PK'', JStr ''CATEGORY#cs.LG''), (''SK'', JStr ''2023 05 01#a1'')]"
  by (simp add: date_range_query_def)


subsection \<open>The limit parameter\<close>

lemma startswith_keyword:
  assumes "startswith path ''/papers/keyword/''"
  shows "path \<noteq> ''/health'' \<and> path \<noteq> ''/papers/recent'' \<and> \<not> startswith path ''/papers/author/''"
proof -
  have "take (length ''/papers/keyword/'') path = ''/papers/keyword/''"
    using assms by (simp only: startswith_def)
  then have "path = ''/papers/keyword/'' @ drop (length ''/papers/keyword/'') path"
    by (metis append_take_drop_id)
  then obtain r where "path = ''/papers/keyword/'' @ r" by blast
  then show ?thesis by (simp add: startswith_def)
qed

lemma get_flag_nonempty: "get_flag args name = Some s \<Longrightarrow> args \<noteq> []"
  by auto

text \<open>
  Texts \<open>int\<close> refuses, and texts it accepts: a separator U+001C before the digits is
  not whitespace for \<open>int\<close>; more than 4300 digits are refused.
\<close>

lemma digit_not_space: "is_digit c \<Longrightarrow> \<not> int_isspace c"
  by (auto simp: is_digit_def int_isspace_def Let_def)

lemma digit_not_sign: "is_digit c \<Longrightarrow> c \<noteq> CHR ''-'' \<and> c \<noteq> CHR ''+''"
  by (auto simp: is_digit_def)

lemma int_strip_digits:
  assumes "\<forall>c\<in>set s. is_digit c"
  shows "int_strip s = s"
proof -
  have "dropWhile int_isspace s = s"
    using assms by (cases s) (auto dest: digit_not_space)
  moreover have "dropWhile int_isspace (rev s) = rev s"
    using assms by (cases "rev s") (auto dest: digit_not_space simp: rev_eq_Cons_iff)
  ultimately show ?thesis by (simp add: int_strip_def)
qed

lemma py_int_too_many_digits:
  assumes "\<forall>c\<in>set s. is_digit c" and "int_max_str_digits < length s"
  shows "py_int s = None"
proof -
  obtain c cs where s: "s = c # cs" using assms(2) by (cases s) auto
  have f: "filter is_digit s = s" using assms(1) by simp
  have "unsigned_int s = None"
    using assms f unfolding s by (simp add: unsigned_int_def)
  then show ?thesis
    using assms(1) digit_not_sign [of c] unfolding int_strip_digits [OF assms(1)] py_int_def
    by (simp add: int_strip_digits [OF assms(1)] s)
qed

lemma py_int_examples:
  "py_int [CHR 0x1C, CHR ''7''] = None"
  "py_int ''abc'' = None"
  "py_int ''1__0'' = None"
  "py_int ''- 5'' = None"
  "py_int (replicate 4301 CHR ''0'') = None"
  "py_int '' 7 '' = Some 7"
  "py_int ''1_000'' = Some 1000"
proof -
  show "py_int (replicate 4301 CHR ''0'') = None"
    by (rule py_int_too_many_digits) (simp_all add: int_max_str_digits_def is_digit_def)
qed code_simp+

text \<open>
  Claim C9. Let \<open>s\<close> be a text that \<open>int\<close> does not accept, such as \<open>abc\<close>. A request
  \<open>GET /papers/recent\<close> or \<open>GET /papers/keyword/...\<close> whose \<open>limit\<close> parameter is \<open>s\<close> is
  answered with status 400 and a body \<open>{"error": ...}\<close>, and the commands \<open>recent\<close> and
  \<open>keyword\<close> with \<open>--limit s\<close> print a payload \<open>{"error": ...}\<close>; in each case no call is
  made to the store.
\<close>

theorem malformed_limit_rejected:
  assumes "py_int s = None"
  shows "(first_param q ''limit'' = Some s \<longrightarrow>
            (\<exists>msg. do_GET unquote store ''/papers/recent'' q = ([], (400, error_body msg)))) \<and>
         (first_param q ''limit'' = Some s \<and> startswith path ''/papers/keyword/'' \<longrightarrow>
            (\<exists>msg. do_GET unquote store path q = ([], (400, error_body msg)))) \<and>
         (get_flag args ''--limit'' = Some s \<longrightarrow>
            (\<exists>msg. main repr store elapsed (prog # ''recent'' # args) = ([], error_payload elapsed msg)) \<and>
            (\<exists>msg. main repr store elapsed (prog # ''keyword'' # args) = ([], error_payload elapsed msg)))"
proof (intro conjI impI)
  assume l: "first_param q ''limit'' = Some s"
  then have lp: "limit_param q = None" using assms by (simp add: limit_param_def)
  show "\<exists>msg. do_GET unquote store ''/papers/recent'' q = ([], (400, error_body msg))"
    by (auto simp: do_GET_def lp split: option.splits)
next
  assume a: "first_param q ''limit'' = Some s \<and> startswith path ''/papers/keyword/''"
  then have lp: "limit_param q = None" using assms by (simp add: limit_param_def)
  show "\<exists>msg. do_GET unquote store path q = ([], (400, error_body msg))"
    using a startswith_keyword [of path] by (auto simp: do_GET_def lp Let_def)
next
  assume f: "get_flag args ''--limit'' = Some s"
  then obtain a rest where args: "args = a # rest" by (cases args) auto
  have lf: "limit_flag repr (a # rest) =
      Inl (''invalid literal for int() with base 10: '' @ repr s)"
    using f assms unfolding args by (simp add: limit_flag_def)
  show "\<exists>msg. main repr store elapsed (prog # ''recent'' # args) = ([], error_payload elapsed msg)"
    unfolding args by (auto simp: main_def lf)
  show "\<exists>msg. main repr store elapsed (prog # ''keyword'' # args) = ([], error_payload elapsed msg)"
    unfolding args by (auto simp: main_def lf)
qed

theorem malformed_limit_rejected_witness:
  "py_int ''abc'' = None \<and>
   do_GET unquote_ascii empty_store ''/papers/recent'' [(''category'', ''cs.LG'', []), (''limit'', ''abc'', [])] =
     ([], (400, error_body ''limit must be integer'')) \<and>
   do_GET unquote_ascii empty_store ''/papers/keyword/learning'' [(''limit'', ''abc'', [])] =
     ([], (400, error_body ''limit must be integer'')) \<and>
   main quoted empty_store 0 [''query_papers.py'', ''recent'', ''cs.LG'', ''--limit'', ''abc''] =
     ([], error_payload 0 (''invalid literal for int() with base 10: '' @ quoted ''abc'')) \<and>
   do_GET unquote_ascii empty_store ''/papers/recent''
     [(''category'', ''cs.LG'', []), (''limit'', [CHR 0x1C, CHR ''7''], [])] =
     ([], (400, error_body ''limit must be integer''))"
proof -
  have p: "py_int ''abc'' = None" by code_simp
  have 1: "do_GET unquote_ascii empty_store ''/papers/recent'' [(''category'', ''cs.LG'', []), (''limit'', ''abc'', [])] =
     ([], (400, error_body ''limit must be integer''))"
    by (simp add: do_GET_def first_param_def limit_param_def p)
  have 2: "do_GET unquote_ascii empty_store ''/papers/keyword/learning'' [(''limit'', ''abc'', [])] =
     ([], (400, error_body ''limit must be integer''))"
    by (simp add: do_GET_def first_param_def limit_param_def p startswith_def)
  have 3: "main quoted empty_store 0 [''query_papers.py'', ''recent'', ''cs.LG'', ''--limit'', ''abc''] =
     ([], error_payload 0 (''invalid literal for int() with base 10: '' @ quoted ''abc''))"
    by (simp add: main_def limit_flag_def p)
  have 4: "do_GET unquote_ascii empty_store ''/papers/recent''
     [(''category'', ''cs.LG'', []), (''limit'', [CHR 0x1C, CHR ''7''], [])] =
     ([], (400, error_body ''limit must be integer''))"
    by (simp add: do_GET_def first_param_def limit_param_def py_int_examples(1))
  show ?thesis
    using 4 malformed_limit_rejected [OF p, of "[(''category'', ''cs.LG'', []), (''limit'', ''abc'', [])]"
        unquote_ascii empty_store "''/papers/keyword/learning''" "[''cs.LG'', ''--limit'', ''abc'']"
        quoted 0 "''query_papers.py''"] p 1 2 3
    by simp
qed


subsection \<open>The point-lookup route\<close>

lemma startswith_split: "startswith s p \<Longrightarrow> \<exists>r. s = p @ r"
  by (metis append_take_drop_id startswith_def)

lemma slashes_author: "startswith path ''/papers/author/'' \<Longrightarrow> 3 \<le> count_list path CHR ''/''"
  by (auto dest!: startswith_split)

lemma slashes_keyword: "startswith path ''/papers/keyword/'' \<Longrightarrow> 3 \<le> count_list path CHR ''/''"
  by (auto dest!: startswith_split)

lemma point_lookup_reached:
  assumes "startswith path ''/papers/''" and "count_list path CHR ''/'' = 2"
    and "path \<noteq> ''/papers/recent''" and "path \<noteq> ''/papers/search''"
    and "unquote (drop (length ''/papers/'') path) \<noteq> []"
  shows "fst (do_GET unquote store path q) =
     [(case first_param q ''table'' of None \<Rightarrow> DEFAULT_TABLE | Some t \<Rightarrow> t,
       id_query (unquote (drop (length ''/papers/'') path)))]"
proof -
  have "path \<noteq> ''/health''" using assms(1) by (auto simp: startswith_def)
  moreover have "\<not> startswith path ''/papers/author/''" "\<not> startswith path ''/papers/keyword/''"
    using assms(2) slashes_author [of path] slashes_keyword [of path] by auto
  ultimately show ?thesis
    using assms by (simp add: do_GET_def Let_def ask_def id_query_def)
qed

lemma other_routes:
  assumes "\<not> (startswith path ''/papers/'' \<and> count_list path CHR ''/'' = 2 \<and>
             path \<noteq> ''/papers/recent'' \<and> path \<noteq> ''/papers/search'' \<and>
             unquote (drop (length ''/papers/'') path) \<noteq> [])"
  shows "list_all (\<lambda>c. IndexName (snd c) \<noteq> Some ''PaperIdIndex'') (fst (do_GET unquote store path q))"
  using assms
  by (auto simp: do_GET_def Let_def ask_def split: option.splits)

lemma id_query_index: "IndexName (id_query i) = Some ''PaperIdIndex''"
  by (simp add: id_query_def)

lemma id_query_inj: "id_query i = id_query j \<Longrightarrow> i = j"
  by (simp add: id_query_def)

text \<open>
  Claim C10, as amended. The handler issues the point lookup of identifier \<open>i\<close> exactly
  when the path, still percent-encoded, starts with \<open>/papers/\<close>, has exactly two
  slashes, is neither \<open>/papers/recent\<close> nor \<open>/papers/search\<close>, and its rest decodes to
  \<open>i\<close>, which is not empty. So \<open>GET /papers/recent\<close> and \<open>GET /papers/search\<close> never reach
  the point lookup (\<open>/papers/recent\<close> without a category is answered with 400), and
  neither does a path with a number of slashes other than two, such as a path that
  carries the slash of an identifier as it is.
\<close>

theorem point_lookup_route:
  "((\<exists>t. fst (do_GET unquote store path q) = [(t, id_query i)]) \<longleftrightarrow>
      startswith path ''/papers/'' \<and> count_list path CHR ''/'' = 2 \<and>
      path \<noteq> ''/papers/recent'' \<and> path \<noteq> ''/papers/search'' \<and>
      unquote (drop (length ''/papers/'') path) = i \<and> i \<noteq> []) \<and>
   (first_param q ''category'' = None \<longrightarrow>
      do_GET unquote store ''/papers/recent'' q = ([], (400, error_body ''category is required''))) \<and>
   list_all (\<lambda>c. IndexName (snd c) \<noteq> Some ''PaperIdIndex'')
     (fst (do_GET unquote store ''/papers/recent'' q)) \<and>
   list_all (\<lambda>c. IndexName (snd c) \<noteq> Some ''PaperIdIndex'')
     (fst (do_GET unquote store ''/papers/search'' q)) \<and>
   (count_list path CHR ''/'' \<noteq> 2 \<longrightarrow>
      list_all (\<lambda>c. IndexName (snd c) \<noteq> Some ''PaperIdIndex'')
        (fst (do_GET unquote store path q)))"
proof -
  let ?reach = "startswith path ''/papers/'' \<and> count_list path CHR ''/'' = 2 \<and>
      path \<noteq> ''/papers/recent'' \<and> path \<noteq> ''/papers/search'' \<and>
      unquote (drop (length ''/papers/'') path) \<noteq> []"
  have a: "(\<exists>t. fst (do_GET unquote store path q) = [(t, id_query i)]) \<longleftrightarrow>
      startswith path ''/papers/'' \<and> count_list path CHR ''/'' = 2 \<and>
      path \<noteq> ''/papers/recent'' \<and> path \<noteq> ''/papers/search'' \<and>
      unquote (drop (length ''/papers/'') path) = i \<and> i \<noteq> []"
  proof
    assume "\<exists>t. fst (do_GET unquote store path q) = [(t, id_query i)]"
    then obtain t where t: "fst (do_GET unquote store path q) = [(t, id_query i)]" ..
    have r: ?reach
    proof (rule ccontr)
      assume "\<not> ?reach"
      then have "list_all (\<lambda>c. IndexName (snd c) \<noteq> Some ''PaperIdIndex'')
                   (fst (do_GET unquote store path q))"
        by (rule other_routes)
      then show False by (simp add: t id_query_index)
    qed
    then have "fst (do_GET unquote store path q) =
       [(case first_param q ''table'' of None \<Rightarrow> DEFAULT_TABLE | Some t \<Rightarrow> t,
         id_query (unquote (drop (length ''/papers/'') path)))]"
      by (intro point_lookup_reached) simp_all
    then have "id_query i = id_query (unquote (drop (length ''/papers/'') path))"
      using t by simp
    then have "unquote (drop (length ''/papers/'') path) = i"
      by (rule id_query_inj [symmetric])
    then show "startswith path ''/papers/'' \<and> count_list path CHR ''/'' = 2 \<and>
      path \<noteq> ''/papers/recent'' \<and> path \<noteq> ''/papers/search'' \<and>
      unquote (drop (length ''/papers/'') path) = i \<and> i \<noteq> []"
      using r by blast
  next
    assume c: "startswith path ''/papers/'' \<and> count_list path CHR ''/'' = 2 \<and>
      path \<noteq> ''/papers/recent'' \<and> path \<noteq> ''/papers/search'' \<and>
      unquote (drop (length ''/papers/'') path) = i \<and> i \<noteq> []"
    then have "fst (do_GET unquote store path q) =
       [(case first_param q ''table'' of None \<Rightarrow> DEFAULT_TABLE | Some t \<Rightarrow> t,
         id_query (unquote (drop (length ''/papers/'') path)))]"
      by (intro point_lookup_reached) simp_all
    then show "\<exists>t. fst (do_GET unquote store path q) = [(t, id_query i)]"
      using c by simp
  qed
  have b: "do_GET unquote store ''/papers/recent'' q = ([], (400, error_body ''category is required''))"
    if "first_param q ''category'' = None"
    using that by (simp add: do_GET_def)
  have c: "list_all (\<lambda>c. IndexName (snd c) \<noteq> Some ''PaperIdIndex'')
     (fst (do_GET unquote store ''/papers/recent'' q))"
    by (rule other_routes) simp
  have d: "list_all (\<lambda>c. IndexName (snd c) \<noteq> Some ''PaperIdIndex'')
     (fst (do_GET unquote store ''/papers/search'' q))"
    by (rule other_routes) simp
  have e: "list_all (\<lambda>c. IndexName (snd c) \<noteq> Some ''PaperIdIndex'')
        (fst (do_GET unquote store path q))" if "count_list path CHR ''/'' \<noteq> 2"
    using that by (intro other_routes) simp
  show ?thesis using a b c d e by blast
qed

theorem point_lookup_route_witness:
  "fst (do_GET unquote_ascii empty_store ''/papers/a1'' []) = [(DEFAULT_TABLE, id_query ''a1'')] \<and>
   do_GET unquote_ascii empty_store ''/papers/recent'' [] =
     ([], (400, error_body ''category is required'')) \<and>
   fst (do_GET unquote_ascii empty_store ''/papers/hep-th/9901001'' []) = []"
proof -
  have 1: "fst (do_GET unquote_ascii empty_store ''/papers/a1'' []) = [(DEFAULT_TABLE, id_query ''a1'')]"
    by (simp add: do_GET_def first_param_def startswith_def ask_def id_query_def Let_def)
  have 3: "fst (do_GET unquote_ascii empty_store ''/papers/hep-th/9901001'' []) = []"
    by (simp add: do_GET_def first_param_def startswith_def Let_def)
  show ?thesis
    using point_lookup_route [of unquote_ascii empty_store "''/papers/a1''" "[]" "''a1''"] 1 3
    by (simp add: first_param_def)
qed

text \<open>
  Claim C10 as stated fails: the slashes are counted before the path is decoded, so a
  paper whose identifier contains a slash is returned by the point lookup when the
  slash is percent-encoded, and the identifiers \<open>recent\<close> and \<open>search\<close> are looked up when
  one of their letters is.
\<close>

theorem point_lookup_counterexample:
  "do_GET unquote_ascii one_paper_store ''/papers/hep-th%2F9901001'' [] =
     ([(DEFAULT_TABLE, id_query ''hep-th/9901001'')], (200, JObj slash_item)) \<and>
   fst (do_GET unquote_ascii empty_store ''/papers/%72ecent'' []) =
     [(DEFAULT_TABLE, id_query ''recent'')] \<and>
   fst (do_GET unquote_ascii empty_store ''/papers/%73earch'' []) =
     [(DEFAULT_TABLE, id_query ''search'')]"
proof -
  have u: "unquote_ascii ''hep-th%2F9901001'' = ''hep-th/9901001''"
    "unquote_ascii ''%72ecent'' = ''recent''" "unquote_ascii ''%73earch'' = ''search''"
    by code_simp+
  show ?thesis
    by (simp add: do_GET_def first_param_def startswith_def ask_def id_query_def Let_def
        one_paper_store_def u del: unquote_ascii.simps)
qed


subsection \<open>Remarks\<close>

text \<open>
  The date of a paper that passed always has ten characters, so the sort key of each
  of its Category entries is a date of ten characters, \<open>#\<close>, and the identifier: the
  shape the date-range property is about.
\<close>

lemma build_paper_pub_date:
  assumes "build_paper str_of p = Inr (Some n)"
  shows "length (pub_date n) = 10"
proof (cases p)
  case (JObj d)
  from assms have "pub_date n =
      ymd str_of (py_or (py_or (py_get d ''published'') (py_get d ''date'')) (JStr ''''))"
    unfolding build_paper_def JObj bind_err_def Let_def
    by (auto split: sum.splits if_splits)
  then show ?thesis by (simp add: ymd_length)
qed (use assms in \<open>simp_all add: build_paper_def\<close>)

lemma category_items_shape:
  assumes "transform_paper str_of p = Inr (Some g)"
  shows "\<exists>aid pd. aid \<noteq> [] \<and> length pd = 10 \<and>
           (\<forall>it\<in>set (category_items g). \<exists>c.
              map_of it ''PK'' = Some (JStr (''CATEGORY#'' @ c)) \<and>
              map_of it ''SK'' = Some (JStr (pd @ ''#'' @ aid)))"
proof -
  from assms obtain n aid ab where
    n: "build_paper str_of p = Inr (Some n)" and aid: "aid \<noteq> []" and
    "pub_date n \<noteq> []" and "set (map fst (paper n)) \<subseteq> set paper_fields" and
    g: "g = \<lparr>master_items = [master_keys aid (pub_date n) @ paper n],
          category_items = map (\<lambda>c. category_keys c aid (pub_date n) @ paper n) (categories n),
          author_items = map (\<lambda>a. author_keys a aid (pub_date n) @ paper n) (authors n),
          keyword_items = map (\<lambda>k. keyword_keys (lower k) aid (pub_date n) @ paper n)
                            (top_keywords_from_abstract ab 10)\<rparr>" and
    "\<forall>a\<in>set (authors n). a \<noteq> []" and "categories n \<noteq> []"
    by (rule transform_paper_SomeE)
  have "\<forall>it\<in>set (category_items g). \<exists>c.
              map_of it ''PK'' = Some (JStr (''CATEGORY#'' @ c)) \<and>
              map_of it ''SK'' = Some (JStr (pub_date n @ ''#'' @ aid))"
    unfolding g by (auto simp: category_keys_def)
  then show ?thesis
    using aid build_paper_pub_date [OF n] by blast
qed

text \<open>
  The functions of \<open>query_papers.py\<close> are the calls \<open>main\<close> makes: the outcome of a command
  is the payload built from what the function returns.
\<close>

lemma main_calls_query_functions:
  "cli_ask store elapsed table (recent_query category limit) payload =
     ([(table, recent_query category limit)],
      case query_recent_in_category store table category limit of
        Inl msg \<Rightarrow> error_payload elapsed msg
      | Inr items \<Rightarrow> result_payload elapsed (payload items))"
  "cli_ask store elapsed table (author_query author) payload =
     ([(table, author_query author)],
      case query_papers_by_author store table author of
        Inl msg \<Rightarrow> error_payload elapsed msg
      | Inr items \<Rightarrow> result_payload elapsed (payload items))"
  "cli_ask store elapsed table (date_range_query category start end') payload =
     ([(table, date_range_query category start end')],
      case query_papers_in_date_range store table category start end' of
        Inl msg \<Rightarrow> error_payload elapsed msg
      | Inr items \<Rightarrow> result_payload elapsed (payload items))"
  "cli_ask store elapsed table (keyword_query kw limit) payload =
     ([(table, keyword_query kw limit)],
      case query_papers_by_keyword store table kw limit of
        Inl msg \<Rightarrow> error_payload elapsed msg
      | Inr items \<Rightarrow> result_payload elapsed (payload items))"
  by (simp_all add: cli_ask_def query_recent_in_category_def query_papers_by_author_def
      query_papers_in_date_range_def query_papers_by_keyword_def)

lemma get_paper_by_id_first:
  "get_paper_by_id store table arxiv_id =
     (case store table (id_query arxiv_id) of
        Inl e \<Rightarrow> Inl e
      | Inr [] \<Rightarrow> Inr None
      | Inr (it # others) \<Rightarrow> Inr (Some it))"
  by (simp add: get_paper_by_id_def split: sum.splits list.splits)

end
